theory Spec2Isabelle
  imports Main "HOL-Library.Word" "HOL-Library.AList"
begin

section \<open>JSON documents\<close>

text \<open>
  ETBus.cpp builds and reads its envelopes through a JSON library (\<open>ArduinoJson.h\<close>) that
  is not part of the repository. Its values are modelled as a datatype; an object keeps
  its members in insertion order, which is the order in which they are written to the
  wire. Floating point numbers are left out: no envelope that ETBus.cpp composes holds one.
\<close>

datatype json =
    JNull
  | JBool bool
  | JInt int
  | JStr string
  | JArr "json list"
  | JObj "(string \<times> json) list"

type_synonym members = "(string \<times> json) list"

text \<open>
  \<open>const char*\<close> fields of the class may be \<open>nullptr\<close> (their initial value in
  ETBus.h), so they are \<open>string option\<close>. Assigning a null pointer to a member stores
  JSON \<open>null\<close>.
\<close>

definition of_cstr :: "string option \<Rightarrow> json" where
  "of_cstr p = (case p of None \<Rightarrow> JNull | Some s \<Rightarrow> JStr s)"

text \<open>\<open>doc[key]\<close> on a document that was read: the member, if the root is an object that has it.\<close>

definition member :: "json \<Rightarrow> string \<Rightarrow> json option" where
  "member doc k = (case doc of JObj kvs \<Rightarrow> map_of kvs k | _ \<Rightarrow> None)"

text \<open>\<open>doc[key] != n\<close> for an integer \<open>n\<close> is false only on a member that is the number \<open>n\<close>.\<close>

definition differs_from_int :: "json option \<Rightarrow> int \<Rightarrow> bool" where
  "differs_from_int v n = (case v of Some (JInt i) \<Rightarrow> i \<noteq> n | _ \<Rightarrow> True)"

text \<open>\<open>doc[key] | ""\<close>: the string of a string member, the default \<open>""\<close> otherwise.\<close>

definition or_empty :: "json option \<Rightarrow> string" where
  "or_empty v = (case v of Some (JStr s) \<Rightarrow> s | _ \<Rightarrow> [])"

text \<open>\<open>doc[key].as<JsonObject>()\<close>: the object, or the null object (\<open>None\<close>).\<close>

definition as_object :: "json option \<Rightarrow> members option" where
  "as_object v = (case v of Some (JObj kvs) \<Rightarrow> Some kvs | _ \<Rightarrow> None)"

subsection \<open>The text of a document\<close>

definition digit :: "nat \<Rightarrow> char" where
  "digit d = ''0123456789'' ! d"

fun dec_nat :: "nat \<Rightarrow> string" where
  "dec_nat n = (if n < 10 then [digit n] else dec_nat (n div 10) @ [digit (n mod 10)])"

declare dec_nat.simps [simp del]

definition dec_int :: "int \<Rightarrow> string" where
  "dec_int i = (if i < 0 then CHR ''-'' # dec_nat (nat (- i)) else dec_nat (nat i))"

definition escape_char :: "char \<Rightarrow> string" where
  "escape_char c =
     (if c = CHR 0x22 then [CHR 0x5C, CHR 0x22]
      else if c = CHR 0x5C then [CHR 0x5C, CHR 0x5C]
      else if c = CHR 0x08 then [CHR 0x5C, CHR ''b'']
      else if c = CHR 0x0C then [CHR 0x5C, CHR ''f'']
      else if c = CHR 0x0A then [CHR 0x5C, CHR ''n'']
      else if c = CHR 0x0D then [CHR 0x5C, CHR ''r'']
      else if c = CHR 0x09 then [CHR 0x5C, CHR ''t'']
      else [c])"

definition quoted :: "string \<Rightarrow> string" where
  "quoted s = CHR 0x22 # concat (map escape_char s) @ [CHR 0x22]"

fun commas :: "string list \<Rightarrow> string" where
  "commas [] = []"
| "commas [x] = x"
| "commas (x # y # ys) = x @ CHR '','' # commas (y # ys)"

text \<open>
  Modelled from the spec: \<open>serializeJson\<close> belongs to the JSON library, which is not under
  src/. The text is the wire format of section 6 of the spec, a JSON object written
  without white space (\<open>{"v":1,"type":"<kind>",...}\<close>), members in insertion order.
\<close>

fun json_text :: "json \<Rightarrow> string" where
  "json_text JNull = ''null''"
| "json_text (JBool b) = (if b then ''true'' else ''false'')"
| "json_text (JInt i) = dec_int i"
| "json_text (JStr s) = quoted s"
| "json_text (JArr vs) = CHR ''['' # commas (map json_text vs) @ '']''"
| "json_text (JObj kvs) =
     CHR ''{'' # commas (map (\<lambda>(k, v). quoted k @ CHR '':'' # json_text v) kvs) @ ''}''"

text \<open>
  Modelled from the spec: \<open>serializeJson(doc, buffer, n)\<close> of the JSON library (not
  under src/) writes the text into a buffer of \<open>n\<close> bytes and returns the number of
  bytes written. The buffer bounds what is written: a longer text is cut at \<open>n\<close>
  bytes (the "undefined truncation" of the fixed-size buffers in section 9 of the spec).
  The model returns the bytes written; their number is the length of the result.
\<close>

definition serializeJson :: "json \<Rightarrow> nat \<Rightarrow> string" where
  "serializeJson doc n = take n (json_text doc)"

subsection \<open>Documents of fixed capacity\<close>

text \<open>
  \<open>StaticJsonDocument<N>\<close> is a document over a memory pool of \<open>N\<close> bytes; the class
  template belongs to the JSON library. Every object member and array element, at
  any depth, takes one slot of the pool; keys and strings given as \<open>const char*\<close> are
  held by pointer and take nothing more. The size of a slot is a constant of the
  library and of the target (the value of its macro \<open>JSON_OBJECT_SIZE(1)\<close>: 16 bytes on
  32-bit targets, 8 bytes on 8-bit ones), so it is a parameter \<open>slot\<close> of the functions
  below; with a slot of 0 bytes the capacity never binds. A member for which the pool
  has no room is not added: the assignment has no effect and reports nothing. A value
  with members of its own is stored whole or not at all.
\<close>

record jsondoc =
  pool :: nat
  root :: members

definition StaticJsonDocument :: "nat \<Rightarrow> jsondoc" where
  "StaticJsonDocument n = \<lparr>pool = n, root = []\<rparr>"

fun nested_slots :: "json \<Rightarrow> nat" where
  "nested_slots (JArr vs) = sum_list (map (\<lambda>v. Suc (nested_slots v)) vs)"
| "nested_slots (JObj kvs) = sum_list (map (\<lambda>(k, v). Suc (nested_slots v)) kvs)"
| "nested_slots v = 0"

text \<open>
  \<open>obj[k] = v\<close> on an object whose members are \<open>kvs\<close>, in a document with \<open>free\<close> bytes
  left in its pool: an existing member is replaced in place, a new one is appended.
\<close>

definition add_member :: "nat \<Rightarrow> nat \<Rightarrow> members \<Rightarrow> string \<Rightarrow> json \<Rightarrow> nat \<times> members" where
  "add_member slot free kvs k v =
     (let need = slot * ((if map_of kvs k = None then 1 else 0) + nested_slots v)
      in if need \<le> free
         then (free - need, if map_of kvs k = None then kvs @ [(k, v)] else AList.update k v kvs)
         else (free, kvs))"

text \<open>\<open>doc[k] = v\<close> on the root of a document.\<close>

definition set_member :: "nat \<Rightarrow> jsondoc \<Rightarrow> string \<Rightarrow> json \<Rightarrow> jsondoc" where
  "set_member slot d k v =
     (case add_member slot (pool d) (root d) k v of (free, kvs) \<Rightarrow> \<lparr>pool = free, root = kvs\<rparr>)"

text \<open>
  \<open>doc.createNestedObject(k)\<close> adds the member \<open>k\<close> with an empty object and returns a
  reference to it. The reference is modelled by the key of the member, and is null
  (\<open>None\<close>) when the member could not be added.
\<close>

definition createNestedObject :: "nat \<Rightarrow> jsondoc \<Rightarrow> string \<Rightarrow> jsondoc \<times> string option" where
  "createNestedObject slot d k =
     (let d' = set_member slot d k (JObj [])
      in (d', if map_of (root d') k = Some (JObj []) then Some k else None))"

text \<open>\<open>p[k] = v\<close> through a reference \<open>p\<close> to a nested object; nothing happens through a null reference.\<close>

definition obj_set :: "nat \<Rightarrow> jsondoc \<Rightarrow> string option \<Rightarrow> string \<Rightarrow> json \<Rightarrow> jsondoc" where
  "obj_set slot d p k v =
     (case p of
        None \<Rightarrow> d
      | Some m \<Rightarrow>
          (case map_of (root d) m of
             Some (JObj kvs) \<Rightarrow>
               (case add_member slot (pool d) kvs k v of
                  (free, kvs') \<Rightarrow> \<lparr>pool = free, root = AList.update m (JObj kvs') (root d)\<rparr>)
           | _ \<Rightarrow> d))"

section \<open>The ETBus class\<close>

text \<open>
  The fields of ETBus.h. The four identity fields and the handler start as \<open>nullptr\<close>.
  A command handler is a function pointer; the model keeps which function it is and
  records a call to it as an event. \<open>udp_rx\<close> holds the datagrams that the socket
  \<open>_udp\<close> has received and \<open>loop\<close> has not read yet, oldest first.
\<close>

type_synonym handler = nat

record etbus =
  dev_id :: "string option"
  dev_class :: "string option"
  dev_name :: "string option"
  fw_version :: "string option"
  cmdHandler :: "handler option"
  udp_rx :: "string list"

definition ETBus :: etbus where
  "ETBus = \<lparr>dev_id = None, dev_class = None, dev_name = None, fw_version = None,
             cmdHandler = None, udp_rx = []\<rparr>"

text \<open>
  The JSON library as the class uses it: the size of a slot, and \<open>deserializeJson\<close>, which
  reads a text into a document of a given capacity or reports an error (\<open>None\<close>). The
  parser is not under src/ and no property of it is assumed.
\<close>

record jsonlib =
  slot_bytes :: nat
  deserializeJson :: "nat \<Rightarrow> string \<Rightarrow> json option"

type_synonym ip = "nat \<times> nat \<times> nat \<times> nat"

definition ETBUS_MCAST :: ip where
  "ETBUS_MCAST = (239, 10, 0, 1)"

definition ETBUS_PORT :: "16 word" where
  "ETBUS_PORT = 5555"

text \<open>What a call does to the outside: joining the group, sending a datagram, calling the handler.\<close>

datatype event =
    BeginMulticast ip "16 word"
  | Packet ip "16 word" string
  | Command handler "string option" "members option"

text \<open>\<open>_send\<close> (lines 142-151): the text goes through a buffer of 512 bytes, and the bytes
  written to it are sent as one datagram to the group. There is no other outcome.\<close>

definition send_doc :: "jsondoc \<Rightarrow> event list" where
  "send_doc doc =
     (let buffer = serializeJson (JObj (root doc)) 512
      in [Packet ETBUS_MCAST ETBUS_PORT buffer])"

text \<open>The documents that the five emitters build, each in the capacity the source gives it.\<close>

definition discover_doc :: "jsonlib \<Rightarrow> etbus \<Rightarrow> jsondoc" where
  "discover_doc L s =
     (let n = slot_bytes L;
          doc = StaticJsonDocument 256;
          doc = set_member n doc ''v'' (JInt 1);
          doc = set_member n doc ''type'' (JStr ''discover'');
          doc = set_member n doc ''id'' (of_cstr (dev_id s));
          doc = set_member n doc ''class'' (of_cstr (dev_class s));
          (doc, p) = createNestedObject n doc ''payload'';
          doc = obj_set n doc p ''name'' (of_cstr (dev_name s));
          doc = obj_set n doc p ''fw'' (of_cstr (fw_version s))
      in doc)"

definition sendDiscover :: "jsonlib \<Rightarrow> etbus \<Rightarrow> event list" where
  "sendDiscover L s = send_doc (discover_doc L s)"

text \<open>
  \<open>sendPong\<close> reads the clock and the radio: \<open>millis()\<close> is an unsigned 32-bit count of
  milliseconds and the division is unsigned; \<open>WiFi.RSSI()\<close> is a signed 8-bit value.
\<close>

definition pong_doc :: "jsonlib \<Rightarrow> etbus \<Rightarrow> 32 word \<Rightarrow> 8 word \<Rightarrow> jsondoc" where
  "pong_doc L s millis rssi =
     (let n = slot_bytes L;
          doc = StaticJsonDocument 256;
          doc = set_member n doc ''v'' (JInt 1);
          doc = set_member n doc ''type'' (JStr ''pong'');
          doc = set_member n doc ''id'' (of_cstr (dev_id s));
          doc = set_member n doc ''class'' (of_cstr (dev_class s));
          (doc, p) = createNestedObject n doc ''payload'';
          doc = obj_set n doc p ''uptime'' (JInt (uint (millis div 1000)));
          doc = obj_set n doc p ''rssi'' (JInt (sint rssi))
      in doc)"

definition sendPong :: "jsonlib \<Rightarrow> etbus \<Rightarrow> 32 word \<Rightarrow> 8 word \<Rightarrow> event list" where
  "sendPong L s millis rssi = send_doc (pong_doc L s millis rssi)"

text \<open>The loop of \<open>sendState\<close> (lines 109-111): \<open>p[kv.key()] = kv.value()\<close> for each pair.\<close>

fun copy_payload :: "nat \<Rightarrow> jsondoc \<Rightarrow> string option \<Rightarrow> members \<Rightarrow> jsondoc" where
  "copy_payload n doc p [] = doc"
| "copy_payload n doc p ((k, v) # payload) = copy_payload n (obj_set n doc p k v) p payload"

definition state_doc :: "jsonlib \<Rightarrow> etbus \<Rightarrow> members \<Rightarrow> jsondoc" where
  "state_doc L s payload =
     (let n = slot_bytes L;
          doc = StaticJsonDocument 512;
          doc = set_member n doc ''v'' (JInt 1);
          doc = set_member n doc ''type'' (JStr ''state'');
          doc = set_member n doc ''id'' (of_cstr (dev_id s));
          doc = set_member n doc ''class'' (of_cstr (dev_class s));
          (doc, p) = createNestedObject n doc ''payload''
      in copy_payload n doc p payload)"

definition sendState :: "jsonlib \<Rightarrow> etbus \<Rightarrow> members \<Rightarrow> event list" where
  "sendState L s payload = send_doc (state_doc L s payload)"

definition switch_doc :: "jsonlib \<Rightarrow> etbus \<Rightarrow> bool \<Rightarrow> jsondoc" where
  "switch_doc L s on =
     (let n = slot_bytes L;
          doc = StaticJsonDocument 64;
          doc = set_member n doc ''v'' (JInt 1);
          doc = set_member n doc ''type'' (JStr ''state'');
          doc = set_member n doc ''id'' (of_cstr (dev_id s));
          doc = set_member n doc ''class'' (of_cstr (dev_class s));
          (doc, p) = createNestedObject n doc ''payload'';
          doc = obj_set n doc p ''on'' (JBool on)
      in doc)"

definition sendSwitchState :: "jsonlib \<Rightarrow> etbus \<Rightarrow> bool \<Rightarrow> event list" where
  "sendSwitchState L s on = send_doc (switch_doc L s on)"

definition rgb_doc ::
  "jsonlib \<Rightarrow> etbus \<Rightarrow> bool \<Rightarrow> 8 word \<Rightarrow> 8 word \<Rightarrow> 8 word \<Rightarrow> 8 word \<Rightarrow> jsondoc" where
  "rgb_doc L s on r g b brightness =
     (let n = slot_bytes L;
          doc = StaticJsonDocument 96;
          doc = set_member n doc ''v'' (JInt 1);
          doc = set_member n doc ''type'' (JStr ''state'');
          doc = set_member n doc ''id'' (of_cstr (dev_id s));
          doc = set_member n doc ''class'' (of_cstr (dev_class s));
          (doc, p) = createNestedObject n doc ''payload'';
          doc = obj_set n doc p ''on'' (JBool on);
          doc = obj_set n doc p ''r'' (JInt (uint r));
          doc = obj_set n doc p ''g'' (JInt (uint g));
          doc = obj_set n doc p ''b'' (JInt (uint b));
          doc = obj_set n doc p ''brightness'' (JInt (uint brightness))
      in doc)"

definition sendRgbState ::
  "jsonlib \<Rightarrow> etbus \<Rightarrow> bool \<Rightarrow> 8 word \<Rightarrow> 8 word \<Rightarrow> 8 word \<Rightarrow> 8 word \<Rightarrow> event list" where
  "sendRgbState L s on r g b brightness = send_doc (rgb_doc L s on r g b brightness)"

text \<open>\<open>begin\<close> (lines 9-25) stores the identity, joins the group and sends two envelopes.\<close>

definition begin_etbus ::
  "jsonlib \<Rightarrow> etbus \<Rightarrow> string option \<Rightarrow> string option \<Rightarrow> string option \<Rightarrow> string option \<Rightarrow>
     32 word \<Rightarrow> 8 word \<Rightarrow> etbus \<times> event list" where
  "begin_etbus L s device_id device_class device_name fw millis rssi =
     (let s = s\<lparr>dev_id := device_id, dev_class := device_class, dev_name := device_name,
                fw_version := fw\<rparr>
      in (s, BeginMulticast ETBUS_MCAST ETBUS_PORT # sendDiscover L s @ sendPong L s millis rssi))"

definition onCommand :: "etbus \<Rightarrow> handler option \<Rightarrow> etbus" where
  "onCommand s cb = s\<lparr>cmdHandler := cb\<rparr>"

text \<open>\<open>_addrMatchesMe\<close> (lines 66-70). \<open>strcmp\<close> is 0 on equal strings only.\<close>

definition addrMatchesMe :: "etbus \<Rightarrow> json \<Rightarrow> bool" where
  "addrMatchesMe s doc =
     (let ident = or_empty (member doc ''id'')
      in if ident = [] \<or> dev_id s = None then False else Some ident = dev_id s)"

text \<open>
  \<open>loop\<close> (lines 31-64). \<open>parsePacket\<close> takes the next datagram, if there is one, and gives
  its size; \<open>read\<close> copies at most 511 of its bytes into \<open>buf\<close>, the rest is dropped. The
  buffer is closed with a 0 byte and handed to the parser as a C string, which ends at
  its first 0 byte.
\<close>

definition c_string :: "string \<Rightarrow> string" where
  "c_string bytes = takeWhile (\<lambda>c. c \<noteq> CHR 0x00) bytes"

definition loop :: "jsonlib \<Rightarrow> etbus \<Rightarrow> 32 word \<Rightarrow> 8 word \<Rightarrow> etbus \<times> event list" where
  "loop L s millis rssi =
     (case udp_rx s of
        [] \<Rightarrow> (s, [])
      | packet # rest \<Rightarrow>
          (let s = s\<lparr>udp_rx := rest\<rparr> in
           if length packet = 0 then (s, [])
           else
             (let buf = c_string (take 511 packet) in
              case deserializeJson L 512 buf of
                None \<Rightarrow> (s, [])
              | Some doc \<Rightarrow>
                  if differs_from_int (member doc ''v'') 1 then (s, [])
                  else
                    (let type = or_empty (member doc ''type'') in
                     if type = [] then (s, [])
                     else if type = ''ping'' then (s, sendPong L s millis rssi)
                     else if type = ''command'' then
                       (if \<not> addrMatchesMe s doc then (s, [])
                        else
                          (case cmdHandler s of
                             Some h \<Rightarrow> (s, [Command h (dev_class s) (as_object (member doc ''payload''))])
                           | None \<Rightarrow> (s, [])))
                     else (s, [])))))"

section \<open>Reading the wire format\<close>

text \<open>
  Modelled from the spec: \<open>deserializeJson\<close> belongs to the JSON library, which is not under
  src/. The spec has it as \<open>decode(bytes) -> Envelope | ParseError\<close> over the wire format
  of section 6: JSON text without white space. The reader below accepts that format
  (objects, arrays, strings with the escapes that the writer produces and \<open>\/\<close>, integers,
  \<open>true\<close>, \<open>false\<close>, \<open>null\<close>) and reports everything else, a text that ends early
  included, as an error (\<open>None\<close>). What follows the first value is not looked at. The
  recursion is bounded by a counter that starts at the length of the text, which is
  more than any text needs.
\<close>

definition is_digit :: "char \<Rightarrow> bool" where
  "is_digit c = (c \<in> set ''0123456789'')"

definition digit_val :: "char \<Rightarrow> nat" where
  "digit_val c = of_char c - 48"

definition parse_nat :: "string \<Rightarrow> (nat \<times> string) option" where
  "parse_nat s =
     (let ds = takeWhile is_digit s
      in if ds = [] then None
         else Some (foldl (\<lambda>n c. n * 10 + digit_val c) 0 ds, dropWhile is_digit s))"

definition unescape :: "char \<Rightarrow> char option" where
  "unescape e =
     (if e = CHR 0x22 then Some (CHR 0x22)
      else if e = CHR 0x5C then Some (CHR 0x5C)
      else if e = CHR ''/'' then Some (CHR ''/'')
      else if e = CHR ''b'' then Some (CHR 0x08)
      else if e = CHR ''f'' then Some (CHR 0x0C)
      else if e = CHR ''n'' then Some (CHR 0x0A)
      else if e = CHR ''r'' then Some (CHR 0x0D)
      else if e = CHR ''t'' then Some (CHR 0x09)
      else None)"

fun parse_chars :: "string \<Rightarrow> (string \<times> string) option" where
  "parse_chars [] = None"
| "parse_chars (c # cs) =
     (if c = CHR 0x22 then Some ([], cs)
      else if c = CHR 0x5C then
        (case cs of
           [] \<Rightarrow> None
         | e # cs' \<Rightarrow>
             (case unescape e of
                None \<Rightarrow> None
              | Some x \<Rightarrow>
                  (case parse_chars cs' of None \<Rightarrow> None | Some (t, r) \<Rightarrow> Some (x # t, r))))
      else (case parse_chars cs of None \<Rightarrow> None | Some (t, r) \<Rightarrow> Some (c # t, r)))"

fun parse_value :: "nat \<Rightarrow> string \<Rightarrow> (json \<times> string) option"
  and parse_members :: "nat \<Rightarrow> string \<Rightarrow> (members \<times> string) option"
  and parse_elements :: "nat \<Rightarrow> string \<Rightarrow> (json list \<times> string) option"
where
  "parse_value 0 s = None"
| "parse_value (Suc f) [] = None"
| "parse_value (Suc f) (c # r) =
     (if c = CHR ''n'' then (if take 3 r = ''ull'' then Some (JNull, drop 3 r) else None)
      else if c = CHR ''t'' then (if take 3 r = ''rue'' then Some (JBool True, drop 3 r) else None)
      else if c = CHR ''f'' then (if take 4 r = ''alse'' then Some (JBool False, drop 4 r) else None)
      else if c = CHR 0x22 then
        (case parse_chars r of None \<Rightarrow> None | Some (t, r') \<Rightarrow> Some (JStr t, r'))
      else if c = CHR ''-'' then
        (case parse_nat r of None \<Rightarrow> None | Some (n, r') \<Rightarrow> Some (JInt (- int n), r'))
      else if c = CHR ''['' then
        (if take 1 r = '']'' then Some (JArr [], drop 1 r)
         else (case parse_elements f r of None \<Rightarrow> None | Some (vs, r') \<Rightarrow> Some (JArr vs, r')))
      else if c = CHR ''{'' then
        (if take 1 r = ''}'' then Some (JObj [], drop 1 r)
         else (case parse_members f r of None \<Rightarrow> None | Some (kvs, r') \<Rightarrow> Some (JObj kvs, r')))
      else (case parse_nat (c # r) of None \<Rightarrow> None | Some (n, r') \<Rightarrow> Some (JInt (int n), r')))"
| "parse_members 0 s = None"
| "parse_members (Suc f) [] = None"
| "parse_members (Suc f) (c # r) =
     (if c = CHR 0x22 then
        (case parse_chars r of
           None \<Rightarrow> None
         | Some (k, r1) \<Rightarrow>
             (if take 1 r1 = '':'' then
                (case parse_value f (drop 1 r1) of
                   None \<Rightarrow> None
                 | Some (v, r2) \<Rightarrow>
                     (if take 1 r2 = ''}'' then Some ([(k, v)], drop 1 r2)
                      else if take 1 r2 = '','' then
                        (case parse_members f (drop 1 r2) of
                           None \<Rightarrow> None
                         | Some (kvs, r3) \<Rightarrow> Some ((k, v) # kvs, r3))
                      else None))
              else None))
      else None)"
| "parse_elements 0 s = None"
| "parse_elements (Suc f) s =
     (case parse_value f s of
        None \<Rightarrow> None
      | Some (v, r) \<Rightarrow>
          (if take 1 r = '']'' then Some ([v], drop 1 r)
           else if take 1 r = '','' then
             (case parse_elements f (drop 1 r) of
                None \<Rightarrow> None
              | Some (vs, r') \<Rightarrow> Some (v # vs, r'))
           else None))"

text \<open>
  Modelled from the spec: a text that was read is held in a document of the given
  capacity, with the slots of section "Documents of fixed capacity"; a text with more
  members than the pool has slots for is an error ("oversized input").
\<close>

definition decode_json :: "nat \<Rightarrow> nat \<Rightarrow> string \<Rightarrow> json option" where
  "decode_json slot cap s =
     (case parse_value (length s) s of
        None \<Rightarrow> None
      | Some (doc, r) \<Rightarrow> if slot * nested_slots doc \<le> cap then Some doc else None)"

definition json_library :: "nat \<Rightarrow> jsonlib" where
  "json_library slot = \<lparr>slot_bytes = slot, deserializeJson = decode_json slot\<rparr>"

text \<open>A number ends where the digits end: what follows it in the text is no digit.\<close>

definition no_digit_ahead :: "string \<Rightarrow> bool" where
  "no_digit_ahead s = (case s of [] \<Rightarrow> True | c # _ \<Rightarrow> \<not> is_digit c)"

section \<open>Building the envelopes\<close>

text \<open>
  Each emitter fills a fresh document member by member. The lemmas below follow the pool
  through these assignments: a member is stored while a slot is free, and dropped after.
\<close>

lemma slot_bytes_json_library [simp]: "slot_bytes (json_library n) = n"
  by (simp add: json_library_def)

lemma differs_from_int_iff: "differs_from_int v n \<longleftrightarrow> v \<noteq> Some (JInt n)"
  by (auto simp: differs_from_int_def split: option.splits json.splits)

lemma nested_slots_of_cstr [simp]: "nested_slots (of_cstr p) = 0"
  by (simp add: of_cstr_def split: option.splits)

lemma add_member_new:
  "map_of kvs k = None \<Longrightarrow> nested_slots v = 0 \<Longrightarrow> slot \<le> free \<Longrightarrow>
   add_member slot free kvs k v = (free - slot, kvs @ [(k, v)])"
  by (simp add: add_member_def)

lemma set_member_new:
  "map_of kvs k = None \<Longrightarrow> nested_slots v = 0 \<Longrightarrow> slot \<le> free \<Longrightarrow>
   set_member slot \<lparr>pool = free, root = kvs\<rparr> k v = \<lparr>pool = free - slot, root = kvs @ [(k, v)]\<rparr>"
  by (simp add: set_member_def add_member_new)

lemma obj_set_new:
  "map_of mem m = Some (JObj kvs) \<Longrightarrow> map_of kvs k = None \<Longrightarrow> nested_slots v = 0 \<Longrightarrow>
   slot \<le> free \<Longrightarrow>
   obj_set slot \<lparr>pool = free, root = mem\<rparr> (Some m) k v =
     \<lparr>pool = free - slot, root = AList.update m (JObj (kvs @ [(k, v)])) mem\<rparr>"
  by (simp add: obj_set_def add_member_new)

lemma set_member_full:
  "map_of kvs k = None \<Longrightarrow> free < slot \<Longrightarrow>
   set_member slot \<lparr>pool = free, root = kvs\<rparr> k v = \<lparr>pool = free, root = kvs\<rparr>"
  by (simp add: set_member_def add_member_def)

lemma obj_set_full:
  "map_of mem m = Some (JObj kvs) \<Longrightarrow> map_of kvs k = None \<Longrightarrow> free < slot \<Longrightarrow>
   obj_set slot \<lparr>pool = free, root = mem\<rparr> (Some m) k v = \<lparr>pool = free, root = mem\<rparr>"
  by (simp add: obj_set_def add_member_def update_triv)

lemma obj_set_null: "obj_set slot d None k v = d"
  by (simp add: obj_set_def)

lemma add_member_fresh:
  "map_of kvs k = None \<Longrightarrow> slot * Suc (nested_slots v) \<le> free \<Longrightarrow>
   add_member slot free kvs k v = (free - slot * Suc (nested_slots v), kvs @ [(k, v)])"
  by (simp add: add_member_def)

lemma nested_slots_Cons:
  "nested_slots (JObj ((k, v) # kvs)) = Suc (nested_slots v) + nested_slots (JObj kvs)"
  by simp

lemma copy_payload_fits:
  assumes "map_of mem m = Some (JObj acc)"
    and "distinct (map fst (acc @ payload))"
    and "slot * nested_slots (JObj payload) \<le> free"
  shows "copy_payload slot \<lparr>pool = free, root = mem\<rparr> (Some m) payload =
           \<lparr>pool = free - slot * nested_slots (JObj payload),
            root = AList.update m (JObj (acc @ payload)) mem\<rparr>"
  using assms
proof (induction payload arbitrary: free mem acc)
  case Nil
  then show ?case by (simp add: update_triv)
next
  case (Cons kv payload)
  obtain k v where kv: "kv = (k, v)" by (cases kv)
  let ?need = "slot * Suc (nested_slots v)"
  from Cons.prems(3) have total: "?need + slot * nested_slots (JObj payload) \<le> free"
    unfolding kv nested_slots_Cons by (simp add: add_mult_distrib2)
  have fresh: "map_of acc k = None"
    using Cons.prems(2) by (auto simp: kv map_of_eq_None_iff)
  have step: "obj_set slot \<lparr>pool = free, root = mem\<rparr> (Some m) k v =
                \<lparr>pool = free - ?need, root = AList.update m (JObj (acc @ [(k, v)])) mem\<rparr>"
    using Cons.prems(1) fresh total by (simp add: obj_set_def add_member_fresh)
  have "copy_payload slot \<lparr>pool = free - ?need, root = AList.update m (JObj (acc @ [(k, v)])) mem\<rparr>
          (Some m) payload =
        \<lparr>pool = free - ?need - slot * nested_slots (JObj payload),
         root = AList.update m (JObj ((acc @ [(k, v)]) @ payload))
                  (AList.update m (JObj (acc @ [(k, v)])) mem)\<rparr>"
  proof (rule Cons.IH)
    show "map_of (AList.update m (JObj (acc @ [(k, v)])) mem) m = Some (JObj (acc @ [(k, v)]))"
      by (simp add: update_conv')
    show "distinct (map fst ((acc @ [(k, v)]) @ payload))"
      using Cons.prems(2) by (simp add: kv)
    show "slot * nested_slots (JObj payload) \<le> free - ?need"
      using total by simp
  qed
  then show ?case
    unfolding kv nested_slots_Cons using step total
    by (simp add: add_mult_distrib2)
qed

lemma envelope_head:
  assumes "5 * n \<le> cap" and "nested_slots i = 0" and "nested_slots c = 0"
  shows "createNestedObject n
           (set_member n (set_member n (set_member n (set_member n (StaticJsonDocument cap)
              ''v'' (JInt 1)) ''type'' (JStr t)) ''id'' i) ''class'' c) ''payload''
         = (\<lparr>pool = cap - 5 * n,
             root = [(''v'', JInt 1), (''type'', JStr t), (''id'', i), (''class'', c),
                     (''payload'', JObj [])]\<rparr>,
            Some ''payload'')"
proof -
  have "cap - n - n - n - n - n = cap - 5 * n"
    by simp
  with assms show ?thesis
    by (simp add: StaticJsonDocument_def createNestedObject_def set_member_new)
qed

lemma envelope_identity:
  assumes "4 * n \<le> cap" and "nested_slots i = 0" and "nested_slots c = 0"
  shows "set_member n (set_member n (set_member n (set_member n (StaticJsonDocument cap)
              ''v'' (JInt 1)) ''type'' (JStr t)) ''id'' i) ''class'' c
         = \<lparr>pool = cap - 4 * n,
             root = [(''v'', JInt 1), (''type'', JStr t), (''id'', i), (''class'', c)]\<rparr>"
proof -
  have "cap - n - n - n - n = cap - 4 * n"
    by simp
  with assms show ?thesis
    by (simp add: StaticJsonDocument_def set_member_new)
qed

lemma add_member_other:
  "k' \<noteq> k \<Longrightarrow> map_of (snd (add_member n free kvs k v)) k' = map_of kvs k'"
  by (auto simp: add_member_def Let_def update_conv' map_add_def split: option.splits)

lemma set_member_other:
  "k' \<noteq> k \<Longrightarrow> map_of (root (set_member n d k v)) k' = map_of (root d) k'"
  using add_member_other [of k' k n "pool d" "root d" v]
  by (cases "add_member n (pool d) (root d) k v") (simp add: set_member_def)

lemma obj_set_other:
  "p \<noteq> Some k' \<Longrightarrow> map_of (root (obj_set n d p k v)) k' = map_of (root d) k'"
  by (cases p)
    (auto simp: obj_set_def update_conv' split: option.splits json.splits prod.splits)

lemma copy_payload_other:
  "p \<noteq> Some k' \<Longrightarrow> map_of (root (copy_payload n d p payload)) k' = map_of (root d) k'"
  by (induction n d p payload rule: copy_payload.induct) (simp_all add: obj_set_other)

lemma copy_payload_append:
  "copy_payload n d p (xs @ ys) = copy_payload n (copy_payload n d p xs) p ys"
  by (induction n d p xs rule: copy_payload.induct) simp_all

lemma createNestedObject_other:
  "k' \<noteq> k \<Longrightarrow> map_of (root (fst (createNestedObject n d k))) k' = map_of (root d) k'"
  by (simp add: createNestedObject_def Let_def set_member_other)

lemma createNestedObject_ref:
  "snd (createNestedObject n d k) = None \<or> snd (createNestedObject n d k) = Some k"
  by (simp add: createNestedObject_def Let_def)

lemma createNestedObject_cases:
  assumes "createNestedObject n d m = (d', p)" and "k \<noteq> m"
  shows "p \<noteq> Some k" and "map_of (root d') k = map_of (root d) k"
  using assms createNestedObject_ref [of n d m] createNestedObject_other [of k m n d]
  by auto

subsection \<open>The documents when every member finds room\<close>

lemma discover_doc_root:
  assumes "7 * slot_bytes L \<le> 256"
  shows "root (discover_doc L s) =
           [(''v'', JInt 1), (''type'', JStr ''discover''), (''id'', of_cstr (dev_id s)),
            (''class'', of_cstr (dev_class s)),
            (''payload'', JObj [(''name'', of_cstr (dev_name s)), (''fw'', of_cstr (fw_version s))])]"
  using assms
  by (simp add: discover_doc_def Let_def envelope_head obj_set_new)

lemma pong_doc_root:
  assumes "7 * slot_bytes L \<le> 256"
  shows "root (pong_doc L s millis rssi) =
           [(''v'', JInt 1), (''type'', JStr ''pong''), (''id'', of_cstr (dev_id s)),
            (''class'', of_cstr (dev_class s)),
            (''payload'', JObj [(''uptime'', JInt (uint (millis div 1000))), (''rssi'', JInt (sint rssi))])]"
  using assms by (simp add: pong_doc_def Let_def envelope_head obj_set_new)

lemma switch_doc_root:
  assumes "6 * slot_bytes L \<le> 64"
  shows "root (switch_doc L s on) =
           [(''v'', JInt 1), (''type'', JStr ''state''), (''id'', of_cstr (dev_id s)),
            (''class'', of_cstr (dev_class s)), (''payload'', JObj [(''on'', JBool on)])]"
  using assms by (simp add: switch_doc_def Let_def envelope_head obj_set_new)

lemma rgb_doc_root:
  assumes "10 * slot_bytes L \<le> 96"
  shows "root (rgb_doc L s on r g b brightness) =
           [(''v'', JInt 1), (''type'', JStr ''state''), (''id'', of_cstr (dev_id s)),
            (''class'', of_cstr (dev_class s)),
            (''payload'', JObj [(''on'', JBool on), (''r'', JInt (uint r)), (''g'', JInt (uint g)),
                                (''b'', JInt (uint b)), (''brightness'', JInt (uint brightness))])]"
  using assms by (simp add: rgb_doc_def Let_def envelope_head obj_set_new)

lemma state_doc_root:
  assumes "distinct (map fst payload)"
    and "slot_bytes L * (5 + nested_slots (JObj payload)) \<le> 512"
  shows "root (state_doc L s payload) =
           [(''v'', JInt 1), (''type'', JStr ''state''), (''id'', of_cstr (dev_id s)),
            (''class'', of_cstr (dev_class s)), (''payload'', JObj payload)]"
proof -
  let ?n = "slot_bytes L"
  from assms(2) have five: "5 * ?n \<le> 512" and rest: "?n * nested_slots (JObj payload) \<le> 512 - 5 * ?n"
    by (simp_all add: add_mult_distrib2)
  let ?mem = "[(''v'', JInt 1), (''type'', JStr ''state''), (''id'', of_cstr (dev_id s)),
            (''class'', of_cstr (dev_class s)), (''payload'', JObj [])]"
  have "copy_payload ?n \<lparr>pool = 512 - 5 * ?n, root = ?mem\<rparr> (Some ''payload'') payload =
      \<lparr>pool = 512 - 5 * ?n - ?n * nested_slots (JObj payload),
       root = AList.update ''payload'' (JObj ([] @ payload)) ?mem\<rparr>"
    by (rule copy_payload_fits) (use assms(1) rest in simp_all)
  moreover have "state_doc L s payload =
      copy_payload ?n \<lparr>pool = 512 - 5 * ?n, root = ?mem\<rparr> (Some ''payload'') payload"
    using five by (simp add: state_doc_def Let_def envelope_head)
  ultimately show ?thesis by simp
qed

subsection \<open>The identity members, whatever becomes of the payload\<close>

lemma discover_doc_carries:
  assumes "4 * slot_bytes L \<le> 256" and "k \<in> {''v'', ''type'', ''id'', ''class''}"
  shows "map_of (root (discover_doc L s)) k =
         map_of [(''v'', JInt 1), (''type'', JStr ''discover''), (''id'', of_cstr (dev_id s)),
                 (''class'', of_cstr (dev_class s))] k"
proof -
  let ?n = "slot_bytes L"
  let ?d = "\<lparr>pool = 256 - 4 * ?n,
             root = [(''v'', JInt 1), (''type'', JStr ''discover''), (''id'', of_cstr (dev_id s)),
                     (''class'', of_cstr (dev_class s))]\<rparr>"
  obtain d' p where c: "createNestedObject ?n ?d ''payload'' = (d', p)"
    by (cases "createNestedObject ?n ?d ''payload''")
  have k: "k \<noteq> ''payload''"
    using assms(2) by auto
  note createNestedObject_cases [OF c k]
  moreover have "discover_doc L s =
      obj_set ?n (obj_set ?n d' p ''name'' (of_cstr (dev_name s))) p ''fw'' (of_cstr (fw_version s))"
    using assms(1) c by (simp add: discover_doc_def Let_def envelope_identity)
  ultimately show ?thesis
    by (simp add: obj_set_other)
qed

lemma pong_doc_carries:
  assumes "4 * slot_bytes L \<le> 256" and "k \<in> {''v'', ''type'', ''id'', ''class''}"
  shows "map_of (root (pong_doc L s millis rssi)) k =
         map_of [(''v'', JInt 1), (''type'', JStr ''pong''), (''id'', of_cstr (dev_id s)),
                 (''class'', of_cstr (dev_class s))] k"
proof -
  let ?n = "slot_bytes L"
  let ?d = "\<lparr>pool = 256 - 4 * ?n,
             root = [(''v'', JInt 1), (''type'', JStr ''pong''), (''id'', of_cstr (dev_id s)),
                     (''class'', of_cstr (dev_class s))]\<rparr>"
  obtain d' p where c: "createNestedObject ?n ?d ''payload'' = (d', p)"
    by (cases "createNestedObject ?n ?d ''payload''")
  have k: "k \<noteq> ''payload''"
    using assms(2) by auto
  note createNestedObject_cases [OF c k]
  moreover have "pong_doc L s millis rssi =
      obj_set ?n (obj_set ?n d' p ''uptime'' (JInt (uint (millis div 1000)))) p ''rssi'' (JInt (sint rssi))"
    using assms(1) c by (simp add: pong_doc_def Let_def envelope_identity)
  ultimately show ?thesis
    by (simp add: obj_set_other)
qed

lemma switch_doc_carries:
  assumes "4 * slot_bytes L \<le> 64" and "k \<in> {''v'', ''type'', ''id'', ''class''}"
  shows "map_of (root (switch_doc L s on)) k =
         map_of [(''v'', JInt 1), (''type'', JStr ''state''), (''id'', of_cstr (dev_id s)),
                 (''class'', of_cstr (dev_class s))] k"
proof -
  let ?n = "slot_bytes L"
  let ?d = "\<lparr>pool = 64 - 4 * ?n,
             root = [(''v'', JInt 1), (''type'', JStr ''state''), (''id'', of_cstr (dev_id s)),
                     (''class'', of_cstr (dev_class s))]\<rparr>"
  obtain d' p where c: "createNestedObject ?n ?d ''payload'' = (d', p)"
    by (cases "createNestedObject ?n ?d ''payload''")
  have k: "k \<noteq> ''payload''"
    using assms(2) by auto
  note createNestedObject_cases [OF c k]
  moreover have "switch_doc L s on = obj_set ?n d' p ''on'' (JBool on)"
    using assms(1) c by (simp add: switch_doc_def Let_def envelope_identity)
  ultimately show ?thesis
    by (simp add: obj_set_other)
qed

lemma rgb_doc_carries:
  assumes "4 * slot_bytes L \<le> 96" and "k \<in> {''v'', ''type'', ''id'', ''class''}"
  shows "map_of (root (rgb_doc L s on r g b brightness)) k =
         map_of [(''v'', JInt 1), (''type'', JStr ''state''), (''id'', of_cstr (dev_id s)),
                 (''class'', of_cstr (dev_class s))] k"
proof -
  let ?n = "slot_bytes L"
  let ?d = "\<lparr>pool = 96 - 4 * ?n,
             root = [(''v'', JInt 1), (''type'', JStr ''state''), (''id'', of_cstr (dev_id s)),
                     (''class'', of_cstr (dev_class s))]\<rparr>"
  obtain d' p where c: "createNestedObject ?n ?d ''payload'' = (d', p)"
    by (cases "createNestedObject ?n ?d ''payload''")
  have k: "k \<noteq> ''payload''"
    using assms(2) by auto
  note createNestedObject_cases [OF c k]
  moreover have "rgb_doc L s on r g b brightness =
      obj_set ?n (obj_set ?n (obj_set ?n (obj_set ?n (obj_set ?n d' p ''on'' (JBool on))
         p ''r'' (JInt (uint r))) p ''g'' (JInt (uint g))) p ''b'' (JInt (uint b)))
         p ''brightness'' (JInt (uint brightness))"
    using assms(1) c by (simp add: rgb_doc_def Let_def envelope_identity)
  ultimately show ?thesis
    by (simp add: obj_set_other)
qed

lemma state_doc_carries:
  assumes "4 * slot_bytes L \<le> 512" and "k \<in> {''v'', ''type'', ''id'', ''class''}"
  shows "map_of (root (state_doc L s payload)) k =
         map_of [(''v'', JInt 1), (''type'', JStr ''state''), (''id'', of_cstr (dev_id s)),
                 (''class'', of_cstr (dev_class s))] k"
proof -
  let ?n = "slot_bytes L"
  let ?d = "\<lparr>pool = 512 - 4 * ?n,
             root = [(''v'', JInt 1), (''type'', JStr ''state''), (''id'', of_cstr (dev_id s)),
                     (''class'', of_cstr (dev_class s))]\<rparr>"
  have k: "k \<noteq> ''payload''"
    using assms(2) by auto
  have "state_doc L s payload =
          copy_payload ?n (fst (createNestedObject ?n ?d ''payload''))
            (snd (createNestedObject ?n ?d ''payload'')) payload"
    using assms(1) by (simp add: state_doc_def Let_def envelope_identity split: prod.splits)
  moreover have "snd (createNestedObject ?n ?d ''payload'') \<noteq> Some k"
    using createNestedObject_ref [of ?n ?d "''payload''"] k by auto
  ultimately show ?thesis
    using k by (simp add: copy_payload_other createNestedObject_other)
qed

subsection \<open>The typed emitters at 16 bytes a slot\<close>

lemma switch_doc_root_16:
  assumes "slot_bytes L = 16"
  shows "root (switch_doc L s on) =
           [(''v'', JInt 1), (''type'', JStr ''state''), (''id'', of_cstr (dev_id s)),
            (''class'', of_cstr (dev_class s))]"
  using assms
  by (simp add: switch_doc_def StaticJsonDocument_def createNestedObject_def Let_def
      set_member_new set_member_full obj_set_null)

lemma rgb_doc_root_16:
  assumes "slot_bytes L = 16"
  shows "root (rgb_doc L s on r g b brightness) =
           [(''v'', JInt 1), (''type'', JStr ''state''), (''id'', of_cstr (dev_id s)),
            (''class'', of_cstr (dev_class s)), (''payload'', JObj [(''on'', JBool on)])]"
  using assms
  by (simp add: rgb_doc_def Let_def envelope_head obj_set_new obj_set_full)

lemma concat_escape_replicate: "concat (map escape_char (replicate n CHR ''x'')) = replicate n CHR ''x''"
  by (induction n) (simp_all add: escape_char_def)

section \<open>Reading back what was written\<close>

lemma digit_props: "d < 10 \<Longrightarrow> is_digit (digit d) \<and> digit_val (digit d) = d"
proof -
  assume "d < 10"
  then have "d \<in> {0, 1, 2, 3, 4, 5, 6, 7, 8, 9}"
    by auto
  then show ?thesis
    by (auto simp: digit_def is_digit_def digit_val_def)
qed

lemma dec_nat_digits: "c \<in> set (dec_nat n) \<Longrightarrow> is_digit c"
proof (induction n arbitrary: c rule: dec_nat.induct)
  case (1 n)
  show ?case
  proof (cases "n < 10")
    case True
    with "1.prems" show ?thesis
      by (subst (asm) dec_nat.simps) (simp add: digit_props)
  next
    case False
    with "1.prems" "1.IH" show ?thesis
      by (subst (asm) dec_nat.simps) (auto simp: digit_props)
  qed
qed

lemma dec_nat_nonempty: "dec_nat n \<noteq> []"
  by (subst dec_nat.simps) simp

lemma foldl_dec_nat: "foldl (\<lambda>n c. n * 10 + digit_val c) 0 (dec_nat n) = n"
proof (induction n rule: dec_nat.induct)
  case (1 n)
  show ?case
  proof (cases "n < 10")
    case True
    then show ?thesis
      by (subst dec_nat.simps) (simp add: digit_props)
  next
    case False
    with "1.IH" show ?thesis
      by (subst dec_nat.simps) (simp add: digit_props)
  qed
qed

lemma takeWhile_no_digit: "no_digit_ahead s \<Longrightarrow> takeWhile is_digit s = []"
  by (cases s) (simp_all add: no_digit_ahead_def)

lemma dropWhile_no_digit: "no_digit_ahead s \<Longrightarrow> dropWhile is_digit s = s"
  by (cases s) (simp_all add: no_digit_ahead_def)

lemma parse_nat_dec_nat:
  assumes "no_digit_ahead rest"
  shows "parse_nat (dec_nat n @ rest) = Some (n, rest)"
proof -
  have "takeWhile is_digit (dec_nat n @ rest) = dec_nat n"
    using assms by (simp add: takeWhile_append2 dec_nat_digits takeWhile_no_digit)
  moreover have "dropWhile is_digit (dec_nat n @ rest) = rest"
    using assms by (simp add: dropWhile_append2 dec_nat_digits dropWhile_no_digit)
  ultimately show ?thesis
    by (simp add: parse_nat_def Let_def dec_nat_nonempty foldl_dec_nat)
qed

lemma parse_chars_step:
  "parse_chars (escape_char c @ cs) =
     (case parse_chars cs of None \<Rightarrow> None | Some (t, r) \<Rightarrow> Some (c # t, r))"
  by (auto simp: escape_char_def unescape_def)

lemma parse_chars_escaped:
  "parse_chars (concat (map escape_char s) @ CHR 0x22 # rest) = Some (s, rest)"
  by (induction s) (simp_all add: parse_chars_step del: parse_chars.simps(2), simp)

lemma no_digit_ahead_simps [simp]:
  "no_digit_ahead []" "no_digit_ahead (CHR ''}'' # s)" "no_digit_ahead (CHR '']'' # s)"
  "no_digit_ahead (CHR '','' # s)"
  by (simp_all add: no_digit_ahead_def is_digit_def)

lemma json_text_starts: "\<exists>c cs. json_text v = c # cs \<and> c \<noteq> CHR '']''"
proof (cases v)
  case (JInt i)
  obtain c cs where d: "dec_nat (nat \<bar>i\<bar>) = c # cs"
    using dec_nat_nonempty by (cases "dec_nat (nat \<bar>i\<bar>)") auto
  then have "is_digit c"
    using dec_nat_digits [of c "nat \<bar>i\<bar>"] by simp
  then have "c \<noteq> CHR '']''"
    by (auto simp: is_digit_def)
  with d JInt show ?thesis
    by (cases "i < 0") (auto simp: dec_int_def abs_if)
qed (auto simp: quoted_def)

lemma parse_members_text:
  assumes vals: "\<And>k v f rest. (k, v) \<in> set kvs \<Longrightarrow> Suc (2 * nested_slots v) \<le> f \<Longrightarrow>
                   no_digit_ahead rest \<Longrightarrow> parse_value f (json_text v @ rest) = Some (v, rest)"
    and "kvs \<noteq> []" and "2 * nested_slots (JObj kvs) \<le> f"
  shows "parse_members f
           (commas (map (\<lambda>(k, v). quoted k @ CHR '':'' # json_text v) kvs) @ CHR ''}'' # rest)
         = Some (kvs, rest)"
  using assms
proof (induction kvs arbitrary: f)
  case Nil
  then show ?case by simp
next
  case (Cons kv kvs)
  obtain k v where kv: "kv = (k, v)"
    by (cases kv)
  from Cons.prems(3) obtain g where f: "f = Suc g"
    and gv: "Suc (2 * nested_slots v) \<le> g" and gr: "2 * nested_slots (JObj kvs) \<le> g"
    by (cases f) (auto simp: kv)
  have val: "\<And>rest. no_digit_ahead rest \<Longrightarrow> parse_value g (json_text v @ rest) = Some (v, rest)"
    using Cons.prems(1) [of k v g] gv by (simp add: kv)
  show ?case
  proof (cases kvs)
    case Nil
    then show ?thesis
      by (simp add: kv f quoted_def parse_chars_escaped val)
  next
    case (Cons kv' kvs')
    have "parse_members g
            (commas (map (\<lambda>(k, v). quoted k @ CHR '':'' # json_text v) kvs) @ CHR ''}'' # rest)
          = Some (kvs, rest)"
      using Cons.prems(1) gr Cons by (intro Cons.IH) auto
    then show ?thesis
      using Cons by (simp add: kv f quoted_def parse_chars_escaped val)
  qed
qed

lemma parse_elements_text:
  assumes vals: "\<And>v f rest. v \<in> set vs \<Longrightarrow> Suc (2 * nested_slots v) \<le> f \<Longrightarrow>
                   no_digit_ahead rest \<Longrightarrow> parse_value f (json_text v @ rest) = Some (v, rest)"
    and "vs \<noteq> []" and "2 * nested_slots (JArr vs) \<le> f"
  shows "parse_elements f (commas (map json_text vs) @ CHR '']'' # rest) = Some (vs, rest)"
  using assms
proof (induction vs arbitrary: f)
  case Nil
  then show ?case by simp
next
  case (Cons v vs)
  from Cons.prems(3) obtain g where f: "f = Suc g"
    and gv: "Suc (2 * nested_slots v) \<le> g" and gr: "2 * nested_slots (JArr vs) \<le> g"
    by (cases f) auto
  have val: "\<And>rest. no_digit_ahead rest \<Longrightarrow> parse_value g (json_text v @ rest) = Some (v, rest)"
    using Cons.prems(1) [of v g] gv by simp
  show ?case
  proof (cases vs)
    case Nil
    then show ?thesis
      by (simp add: f val)
  next
    case (Cons v' vs')
    have "parse_elements g (commas (map json_text vs) @ CHR '']'' # rest) = Some (vs, rest)"
      using Cons.prems(1) gr Cons by (intro Cons.IH) auto
    then show ?thesis
      using Cons by (simp add: f val)
  qed
qed

lemma parse_value_text:
  "Suc (2 * nested_slots v) \<le> f \<Longrightarrow> no_digit_ahead rest \<Longrightarrow>
   parse_value f (json_text v @ rest) = Some (v, rest)"
proof (induction v arbitrary: f rest)
  case JNull
  then obtain g where "f = Suc g" by (cases f) auto
  then show ?case by simp
next
  case (JBool b)
  then obtain g where "f = Suc g" by (cases f) auto
  then show ?case by simp
next
  case (JInt i)
  then obtain g where f: "f = Suc g" by (cases f) auto
  show ?case
  proof (cases "i < 0")
    case True
    with JInt.prems(2) show ?thesis
      by (simp add: f dec_int_def parse_nat_dec_nat)
  next
    case False
    obtain c cs where d: "dec_nat (nat i) = c # cs"
      using dec_nat_nonempty by (cases "dec_nat (nat i)") auto
    then have "is_digit c"
      using dec_nat_digits [of c "nat i"] by simp
    then have c: "c \<noteq> CHR ''n''" "c \<noteq> CHR ''t''" "c \<noteq> CHR ''f''" "c \<noteq> CHR 0x22"
      "c \<noteq> CHR ''-''" "c \<noteq> CHR ''[''" "c \<noteq> CHR ''{''"
      by (auto simp: is_digit_def)
    have "parse_nat (c # cs @ rest) = Some (nat i, rest)"
      using parse_nat_dec_nat [OF JInt.prems(2), of "nat i"] by (simp add: d)
    with False c show ?thesis
      by (simp add: f dec_int_def d)
  qed
next
  case (JStr s)
  then obtain g where "f = Suc g" by (cases f) auto
  then show ?case by (simp add: quoted_def parse_chars_escaped)
next
  case (JArr vs)
  then obtain g where f: "f = Suc g" and g: "2 * nested_slots (JArr vs) \<le> g"
    by (cases f) auto
  show ?case
  proof (cases vs)
    case Nil
    then show ?thesis by (simp add: f)
  next
    case (Cons v vs')
    obtain c cs where "json_text v = c # cs" "c \<noteq> CHR '']''"
      using json_text_starts by blast
    then have first: "take 1 (commas (map json_text vs) @ CHR '']'' # rest) \<noteq> '']''"
      by (cases vs') (simp_all add: Cons)
    have "parse_elements g (commas (map json_text vs) @ CHR '']'' # rest) = Some (vs, rest)"
      using JArr.IH g Cons by (intro parse_elements_text) auto
    with first show ?thesis
      by (simp add: f)
  qed
next
  case (JObj kvs)
  then obtain g where f: "f = Suc g" and g: "2 * nested_slots (JObj kvs) \<le> g"
    by (cases f) auto
  show ?case
  proof (cases kvs)
    case Nil
    then show ?thesis by (simp add: f)
  next
    case (Cons kv kvs')
    have first: "take 1 (commas (map (\<lambda>(k, v). quoted k @ CHR '':'' # json_text v) kvs)
                          @ CHR ''}'' # rest) \<noteq> ''}''"
      by (cases kv; cases kvs') (simp_all add: Cons quoted_def)
    have "parse_members g
            (commas (map (\<lambda>(k, v). quoted k @ CHR '':'' # json_text v) kvs) @ CHR ''}'' # rest)
          = Some (kvs, rest)"
    proof (rule parse_members_text)
      fix k v f' rest'
      assume "(k, v) \<in> set kvs" and "Suc (2 * nested_slots v) \<le> f'" and "no_digit_ahead rest'"
      then show "parse_value f' (json_text v @ rest') = Some (v, rest')"
        using JObj.IH [of "(k, v)" v f' rest'] by simp
    qed (use g Cons in auto)
    with first show ?thesis
      by (simp add: f)
  qed
qed

lemma length_commas:
  "xs \<noteq> [] \<Longrightarrow> Suc (length (commas xs)) = sum_list (map (\<lambda>x. Suc (length x)) xs)"
  by (induction xs rule: commas.induct) simp_all

lemma json_text_fuel: "Suc (2 * nested_slots v) \<le> length (json_text v)"
proof (induction v)
  case (JInt i)
  have "dec_nat n \<noteq> []" for n
    by (rule dec_nat_nonempty)
  then have "1 \<le> length (dec_nat n)" for n
    by (cases "dec_nat n") auto
  then show ?case
    by (auto simp: dec_int_def Suc_le_eq)
next
  case (JArr vs)
  show ?case
  proof (cases "vs = []")
    case True
    then show ?thesis by simp
  next
    case False
    have "sum_list (map (\<lambda>v. Suc (Suc (2 * nested_slots v))) vs)
          \<le> sum_list (map (\<lambda>v. Suc (length (json_text v))) vs)"
      using JArr.IH by (intro sum_list_mono) simp
    moreover have "2 * sum_list (map (\<lambda>v. Suc (nested_slots v)) vs)
          = sum_list (map (\<lambda>v. Suc (Suc (2 * nested_slots v))) vs)"
      by (induction vs) simp_all
    moreover have "Suc (length (commas (map json_text vs)))
          = sum_list (map (\<lambda>v. Suc (length (json_text v))) vs)"
      using False by (simp add: length_commas comp_def)
    ultimately show ?thesis
      by simp
  qed
next
  case (JObj kvs)
  show ?case
  proof (cases "kvs = []")
    case True
    then show ?thesis by simp
  next
    case False
    have "sum_list (map (\<lambda>(k, v). Suc (Suc (2 * nested_slots v))) kvs)
          \<le> sum_list (map (\<lambda>kv. Suc (length ((\<lambda>(k, v). quoted k @ CHR '':'' # json_text v) kv))) kvs)"
    proof (intro sum_list_mono)
      fix kv assume mem: "kv \<in> set kvs"
      obtain k v where kv: "kv = (k, v)"
        by (cases kv)
      have "Suc (2 * nested_slots v) \<le> length (json_text v)"
        using JObj.IH [of kv v] mem by (simp add: kv)
      then show "(case kv of (k, v) \<Rightarrow> Suc (Suc (2 * nested_slots v)))
            \<le> Suc (length ((\<lambda>(k, v). quoted k @ CHR '':'' # json_text v) kv))"
        by (simp add: kv quoted_def)
    qed
    moreover have "2 * sum_list (map (\<lambda>(k, v). Suc (nested_slots v)) kvs)
          = sum_list (map (\<lambda>(k, v). Suc (Suc (2 * nested_slots v))) kvs)"
      by (induction kvs) auto
    moreover have "Suc (length (commas (map (\<lambda>(k, v). quoted k @ CHR '':'' # json_text v) kvs)))
          = sum_list (map (\<lambda>kv. Suc (length ((\<lambda>(k, v). quoted k @ CHR '':'' # json_text v) kv))) kvs)"
      using False by (simp add: length_commas comp_def)
    ultimately show ?thesis
      by simp
  qed
qed (simp_all add: quoted_def)

lemma c_string_id: "CHR 0x00 \<notin> set s \<Longrightarrow> c_string s = s"
  by (simp add: c_string_def takeWhile_eq_all_conv) metis


section \<open>Dispatch of inbound envelopes\<close>

text \<open>
  The theorems about \<open>loop\<close> hold for every parser: they speak of a datagram \<open>packet\<close> at
  the head of the socket's queue whose first 511 bytes the parser reads as the document
  \<open>doc\<close>. The capacity hypotheses bound the size of a slot by what the documents of the
  source have room for.
\<close>

text \<open>
  Claim C2. A buffer that decodes to an envelope whose \<open>v\<close> is not the number 1, or whose
  \<open>type\<close> is missing, not a string or empty, has no effect: \<open>loop\<close> takes the datagram off
  the socket and neither sends nor calls the handler.
\<close>

theorem malformed_envelope_ignored:
  assumes "udp_rx s = packet # rest"
    and "deserializeJson L 512 (c_string (take 511 packet)) = Some doc"
    and "member doc ''v'' \<noteq> Some (JInt 1) \<or> or_empty (member doc ''type'') = []"
  shows "loop L s millis rssi = (s\<lparr>udp_rx := rest\<rparr>, [])"
  using assms by (auto simp: loop_def Let_def differs_from_int_iff)

theorem malformed_envelope_ignored_witness:
  \<open>loop (json_library 16)
     (ETBus\<lparr>dev_id := Some ''lamp1'', dev_class := Some ''switch'', cmdHandler := Some 7,
            udp_rx := [''{"v":2,"type":"ping"}'', ''{"v":1,"type":""}'']\<rparr>) 61000 196
   = (ETBus\<lparr>dev_id := Some ''lamp1'', dev_class := Some ''switch'', cmdHandler := Some 7,
            udp_rx := [''{"v":1,"type":""}'']\<rparr>, [])\<close>
proof -
  let ?L = \<open>json_library 16\<close>
  let ?s = \<open>ETBus\<lparr>dev_id := Some ''lamp1'', dev_class := Some ''switch'', cmdHandler := Some 7,
            udp_rx := [''{"v":2,"type":"ping"}'', ''{"v":1,"type":""}'']\<rparr>\<close>
  have rx: \<open>udp_rx ?s = ''{"v":2,"type":"ping"}'' # [''{"v":1,"type":""}'']\<close>
    by simp
  have dec: \<open>deserializeJson ?L 512 (c_string (take 511 ''{"v":2,"type":"ping"}''))
             = Some (JObj [(''v'', JInt 2), (''type'', JStr ''ping'')])\<close>
    by code_simp
  have bad: \<open>member (JObj [(''v'', JInt 2), (''type'', JStr ''ping'')]) ''v'' \<noteq> Some (JInt 1)
      \<or> or_empty (member (JObj [(''v'', JInt 2), (''type'', JStr ''ping'')]) ''type'') = []\<close>
    by (simp add: member_def)
  show ?thesis
    using malformed_envelope_ignored [OF rx dec bad, of 61000 196] by (simp add: ETBus_def)
qed

text \<open>
  Claim C3. An envelope with \<open>v = 1\<close> and type \<open>ping\<close> is answered, whatever its other
  members are and with no address check, by exactly one datagram: the \<open>pong\<close> envelope
  with the Endpoint's own id and class, and a payload of the integers \<open>uptime\<close> (the
  milliseconds of the clock divided by 1000) and \<open>rssi\<close>.
\<close>

theorem ping_answered_with_pong:
  assumes "udp_rx s = packet # rest" and "packet \<noteq> []"
    and "deserializeJson L 512 (c_string (take 511 packet)) = Some doc"
    and "member doc ''v'' = Some (JInt 1)"
    and "member doc ''type'' = Some (JStr ''ping'')"
    and "7 * slot_bytes L \<le> 256"
  shows "loop L s millis rssi =
           (s\<lparr>udp_rx := rest\<rparr>,
            [Packet ETBUS_MCAST ETBUS_PORT
               (serializeJson
                  (JObj [(''v'', JInt 1), (''type'', JStr ''pong''), (''id'', of_cstr (dev_id s)),
                         (''class'', of_cstr (dev_class s)),
                         (''payload'', JObj [(''uptime'', JInt (uint (millis div 1000))),
                                             (''rssi'', JInt (sint rssi))])])
                  512)])"
  using assms
  by (simp add: loop_def Let_def differs_from_int_iff or_empty_def sendPong_def send_doc_def
      pong_doc_root)

theorem ping_answered_with_pong_witness:
  \<open>loop (json_library 16)
     (ETBus\<lparr>dev_id := Some ''lamp1'', dev_class := Some ''switch'',
            udp_rx := [''{"v":1,"type":"ping","id":"other"}'']\<rparr>) 61999 196
   = (ETBus\<lparr>dev_id := Some ''lamp1'', dev_class := Some ''switch''\<rparr>,
      [Packet ETBUS_MCAST ETBUS_PORT
         ''{"v":1,"type":"pong","id":"lamp1","class":"switch","payload":{"uptime":61,"rssi":-60}}''])\<close>
proof -
  let ?L = \<open>json_library 16\<close>
  let ?s = \<open>ETBus\<lparr>dev_id := Some ''lamp1'', dev_class := Some ''switch'',
            udp_rx := [''{"v":1,"type":"ping","id":"other"}'']\<rparr>\<close>
  let ?doc = \<open>JObj [(''v'', JInt 1), (''type'', JStr ''ping''), (''id'', JStr ''other'')]\<close>
  have rx: \<open>udp_rx ?s = ''{"v":1,"type":"ping","id":"other"}'' # []\<close>
    by simp
  have ne: \<open>''{"v":1,"type":"ping","id":"other"}'' \<noteq> []\<close>
    by simp
  have dec: \<open>deserializeJson ?L 512 (c_string (take 511 ''{"v":1,"type":"ping","id":"other"}''))
             = Some ?doc\<close>
    by code_simp
  have v: \<open>member ?doc ''v'' = Some (JInt 1)\<close> and t: \<open>member ?doc ''type'' = Some (JStr ''ping'')\<close>
    by (simp_all add: member_def)
  have cap: \<open>7 * slot_bytes ?L \<le> 256\<close>
    by (simp add: json_library_def)
  have bytes: \<open>serializeJson
                  (JObj [(''v'', JInt 1), (''type'', JStr ''pong''), (''id'', of_cstr (Some ''lamp1'')),
                         (''class'', of_cstr (Some ''switch'')),
                         (''payload'', JObj [(''uptime'', JInt (uint ((61999 :: 32 word) div 1000))),
                                             (''rssi'', JInt (sint (196 :: 8 word)))])])
                  512
     = ''{"v":1,"type":"pong","id":"lamp1","class":"switch","payload":{"uptime":61,"rssi":-60}}''\<close>
    by code_simp
  show ?thesis
    using ping_answered_with_pong [OF rx ne dec v t cap, of 61999 196] bytes
    by (simp add: ETBus_def)
qed

text \<open>
  Claim C1. For an envelope of type \<open>command\<close> (with \<open>v = 1\<close>) and a registered handler,
  the handler is called, once and with the Endpoint's class and the payload object, if
  and only if the envelope's \<open>id\<close> is a non-empty string, the Endpoint's id is set, and the
  two are equal. Equality of strings is exact, so an id that differs in case does not
  match. In every other case nothing happens beyond taking the datagram off the socket.
\<close>

theorem command_callback_iff_addressed:
  assumes "udp_rx s = packet # rest" and "packet \<noteq> []"
    and "deserializeJson L 512 (c_string (take 511 packet)) = Some doc"
    and "member doc ''v'' = Some (JInt 1)"
    and "member doc ''type'' = Some (JStr ''command'')"
    and "cmdHandler s = Some h"
  shows "loop L s millis rssi =
           (s\<lparr>udp_rx := rest\<rparr>,
            if or_empty (member doc ''id'') \<noteq> [] \<and> dev_id s = Some (or_empty (member doc ''id''))
            then [Command h (dev_class s) (as_object (member doc ''payload''))]
            else [])"
  using assms
  by (simp add: loop_def Let_def differs_from_int_iff addrMatchesMe_def)
    (auto simp: or_empty_def)

theorem command_callback_iff_addressed_witness:
  \<open>loop (json_library 16)
     (ETBus\<lparr>dev_id := Some ''lamp1'', dev_class := Some ''switch'', cmdHandler := Some 7,
            udp_rx := [''{"v":1,"type":"command","id":"lamp1","payload":{"on":true}}'']\<rparr>) 61000 196
   = (ETBus\<lparr>dev_id := Some ''lamp1'', dev_class := Some ''switch'', cmdHandler := Some 7\<rparr>,
      [Command 7 (Some ''switch'') (Some [(''on'', JBool True)])])
   \<and>
   loop (json_library 16)
     (ETBus\<lparr>dev_id := Some ''lamp1'', dev_class := Some ''switch'', cmdHandler := Some 7,
            udp_rx := [''{"v":1,"type":"command","id":"LAMP1","payload":{"on":true}}'']\<rparr>) 61000 196
   = (ETBus\<lparr>dev_id := Some ''lamp1'', dev_class := Some ''switch'', cmdHandler := Some 7\<rparr>, [])\<close>
proof -
  let ?L = \<open>json_library 16\<close>
  let ?p1 = \<open>''{"v":1,"type":"command","id":"lamp1","payload":{"on":true}}''\<close>
  let ?p2 = \<open>''{"v":1,"type":"command","id":"LAMP1","payload":{"on":true}}''\<close>
  let ?d1 = \<open>JObj [(''v'', JInt 1), (''type'', JStr ''command''), (''id'', JStr ''lamp1''),
                   (''payload'', JObj [(''on'', JBool True)])]\<close>
  let ?d2 = \<open>JObj [(''v'', JInt 1), (''type'', JStr ''command''), (''id'', JStr ''LAMP1''),
                   (''payload'', JObj [(''on'', JBool True)])]\<close>
  let ?s1 = \<open>ETBus\<lparr>dev_id := Some ''lamp1'', dev_class := Some ''switch'', cmdHandler := Some 7,
            udp_rx := [?p1]\<rparr>\<close>
  let ?s2 = \<open>ETBus\<lparr>dev_id := Some ''lamp1'', dev_class := Some ''switch'', cmdHandler := Some 7,
            udp_rx := [?p2]\<rparr>\<close>
  have rx1: \<open>udp_rx ?s1 = ?p1 # []\<close> and rx2: \<open>udp_rx ?s2 = ?p2 # []\<close>
    by simp_all
  have ne1: \<open>?p1 \<noteq> []\<close> and ne2: \<open>?p2 \<noteq> []\<close>
    by simp_all
  have dec1: \<open>deserializeJson ?L 512 (c_string (take 511 ?p1)) = Some ?d1\<close>
    by code_simp
  have dec2: \<open>deserializeJson ?L 512 (c_string (take 511 ?p2)) = Some ?d2\<close>
    by code_simp
  have v1: \<open>member ?d1 ''v'' = Some (JInt 1)\<close> and t1: \<open>member ?d1 ''type'' = Some (JStr ''command'')\<close>
    and v2: \<open>member ?d2 ''v'' = Some (JInt 1)\<close> and t2: \<open>member ?d2 ''type'' = Some (JStr ''command'')\<close>
    by (simp_all add: member_def)
  have h1: \<open>cmdHandler ?s1 = Some 7\<close> and h2: \<open>cmdHandler ?s2 = Some 7\<close>
    by simp_all
  show ?thesis
    using command_callback_iff_addressed [OF rx1 ne1 dec1 v1 t1 h1, of 61000 196]
      command_callback_iff_addressed [OF rx2 ne2 dec2 v2 t2 h2, of 61000 196]
    by (simp add: ETBus_def member_def or_empty_def as_object_def)
qed

text \<open>
  Claim C10. \<open>onCommand(nullptr)\<close> leaves the Endpoint without a handler, as it was
  before any registration: a \<open>command\<close> envelope addressed to it is then dropped with no
  call and no datagram.
\<close>

theorem null_handler_discards_command:
  assumes "udp_rx s = packet # rest"
    and "deserializeJson L 512 (c_string (take 511 packet)) = Some doc"
    and "member doc ''v'' = Some (JInt 1)"
    and "member doc ''type'' = Some (JStr ''command'')"
    and "member doc ''id'' = Some (JStr ident)" and "ident \<noteq> []" and "dev_id s = Some ident"
  shows "loop L (onCommand s None) millis rssi = ((onCommand s None)\<lparr>udp_rx := rest\<rparr>, [])
       \<and> cmdHandler (onCommand s None) = cmdHandler ETBus
       \<and> onCommand (onCommand s cb) None = onCommand s None"
  using assms
  by (simp add: loop_def Let_def differs_from_int_iff or_empty_def addrMatchesMe_def
      onCommand_def ETBus_def)

theorem null_handler_discards_command_witness:
  \<open>loop (json_library 16)
     (onCommand
        (ETBus\<lparr>dev_id := Some ''lamp1'', dev_class := Some ''switch'', cmdHandler := Some 7,
               udp_rx := [''{"v":1,"type":"command","id":"lamp1","payload":{"on":true}}'']\<rparr>)
        None) 61000 196
   = (ETBus\<lparr>dev_id := Some ''lamp1'', dev_class := Some ''switch''\<rparr>, [])\<close>
proof -
  let ?L = \<open>json_library 16\<close>
  let ?p = \<open>''{"v":1,"type":"command","id":"lamp1","payload":{"on":true}}''\<close>
  let ?d = \<open>JObj [(''v'', JInt 1), (''type'', JStr ''command''), (''id'', JStr ''lamp1''),
                   (''payload'', JObj [(''on'', JBool True)])]\<close>
  let ?s = \<open>ETBus\<lparr>dev_id := Some ''lamp1'', dev_class := Some ''switch'', cmdHandler := Some 7,
            udp_rx := [?p]\<rparr>\<close>
  have rx: \<open>udp_rx ?s = ?p # []\<close>
    by simp
  have dec: \<open>deserializeJson ?L 512 (c_string (take 511 ?p)) = Some ?d\<close>
    by code_simp
  have v: \<open>member ?d ''v'' = Some (JInt 1)\<close> and t: \<open>member ?d ''type'' = Some (JStr ''command'')\<close>
    and i: \<open>member ?d ''id'' = Some (JStr ''lamp1'')\<close>
    by (simp_all add: member_def)
  have ne: \<open>''lamp1'' \<noteq> []\<close> and own: \<open>dev_id ?s = Some ''lamp1''\<close>
    by simp_all
  show ?thesis
    using null_handler_discards_command [OF rx dec v t i ne own, of 61000 196]
    by (simp add: ETBus_def onCommand_def)
qed

section \<open>Outbound envelopes\<close>

text \<open>
  Claim C9. \<open>begin\<close> stores the four identity fields, joins the group, and sends exactly
  two datagrams, in this order: the \<open>discover\<close> envelope with payload \<open>name\<close> and \<open>fw\<close>,
  then the \<open>pong\<close> envelope. It reads nothing from the socket.
\<close>

theorem begin_emits_discover_then_pong:
  assumes "7 * slot_bytes L \<le> 256"
  shows "begin_etbus L s i c n f millis rssi =
           (s\<lparr>dev_id := i, dev_class := c, dev_name := n, fw_version := f\<rparr>,
            [BeginMulticast ETBUS_MCAST ETBUS_PORT,
             Packet ETBUS_MCAST ETBUS_PORT
               (serializeJson
                  (JObj [(''v'', JInt 1), (''type'', JStr ''discover''), (''id'', of_cstr i),
                         (''class'', of_cstr c),
                         (''payload'', JObj [(''name'', of_cstr n), (''fw'', of_cstr f)])])
                  512),
             Packet ETBUS_MCAST ETBUS_PORT
               (serializeJson
                  (JObj [(''v'', JInt 1), (''type'', JStr ''pong''), (''id'', of_cstr i),
                         (''class'', of_cstr c),
                         (''payload'', JObj [(''uptime'', JInt (uint (millis div 1000))),
                                             (''rssi'', JInt (sint rssi))])])
                  512)])"
  using assms
  by (simp add: begin_etbus_def Let_def sendDiscover_def sendPong_def send_doc_def
      pong_doc_root discover_doc_root)

theorem begin_emits_discover_then_pong_witness:
  \<open>begin_etbus (json_library 16) ETBus
     (Some ''lamp1'') (Some ''switch'') (Some ''Hall Lamp'') (Some ''1.0'') 2500 196
   = (ETBus\<lparr>dev_id := Some ''lamp1'', dev_class := Some ''switch'', dev_name := Some ''Hall Lamp'',
            fw_version := Some ''1.0''\<rparr>,
      [BeginMulticast ETBUS_MCAST ETBUS_PORT,
       Packet ETBUS_MCAST ETBUS_PORT
         ''{"v":1,"type":"discover","id":"lamp1","class":"switch","payload":{"name":"Hall Lamp","fw":"1.0"}}'',
       Packet ETBUS_MCAST ETBUS_PORT
         ''{"v":1,"type":"pong","id":"lamp1","class":"switch","payload":{"uptime":2,"rssi":-60}}''])\<close>
proof -
  let ?L = \<open>json_library 16\<close>
  have cap: \<open>7 * slot_bytes ?L \<le> 256\<close>
    by simp
  have discover: \<open>serializeJson
      (JObj [(''v'', JInt 1), (''type'', JStr ''discover''), (''id'', of_cstr (Some ''lamp1'')),
             (''class'', of_cstr (Some ''switch'')),
             (''payload'', JObj [(''name'', of_cstr (Some ''Hall Lamp'')),
                                 (''fw'', of_cstr (Some ''1.0''))])]) 512
    = ''{"v":1,"type":"discover","id":"lamp1","class":"switch","payload":{"name":"Hall Lamp","fw":"1.0"}}''\<close>
    by code_simp
  have pong: \<open>serializeJson
      (JObj [(''v'', JInt 1), (''type'', JStr ''pong''), (''id'', of_cstr (Some ''lamp1'')),
             (''class'', of_cstr (Some ''switch'')),
             (''payload'', JObj [(''uptime'', JInt (uint ((2500 :: 32 word) div 1000))),
                                 (''rssi'', JInt (sint (196 :: 8 word)))])]) 512
    = ''{"v":1,"type":"pong","id":"lamp1","class":"switch","payload":{"uptime":2,"rssi":-60}}''\<close>
    by code_simp
  show ?thesis
    unfolding begin_emits_discover_then_pong [OF cap] discover pong ..
qed

text \<open>
  Claim C4 says, beyond its example, that \<open>sendState\<close> sends an envelope whose payload is
  a key-by-key copy of whatever mapping the caller supplies. Two things bound this. The
  document of 512 bytes has, at 16 bytes a slot, room for 27 members of the payload
  after the five of the envelope: of 28 small fields the last is left out, although the
  text has only 253 bytes. And the text goes through the buffer of 512 bytes: with a
  string of 500 bytes in the payload the datagram ends inside that string.
\<close>

theorem sendState_drops_or_cuts_payload:
  \<open>sendState (json_library 16) (ETBus\<lparr>dev_id := Some ''lamp1'', dev_class := Some ''switch''\<rparr>)
       [(''a'', JInt 1), (''b'', JInt 2), (''c'', JInt 3), (''d'', JInt 4),
        (''e'', JInt 5), (''f'', JInt 6), (''g'', JInt 7), (''h'', JInt 8),
        (''i'', JInt 9), (''j'', JInt 10), (''k'', JInt 11), (''l'', JInt 12),
        (''m'', JInt 13), (''n'', JInt 14), (''o'', JInt 15), (''p'', JInt 16),
        (''q'', JInt 17), (''r'', JInt 18), (''s'', JInt 19), (''t'', JInt 20),
        (''u'', JInt 21), (''v'', JInt 22), (''w'', JInt 23), (''x'', JInt 24),
        (''y'', JInt 25), (''z'', JInt 26), (''aa'', JInt 27), (''ab'', JInt 28)]
     = [Packet ETBUS_MCAST ETBUS_PORT
         ''{"v":1,"type":"state","id":"lamp1","class":"switch","payload":{"a":1,"b":2,"c":3,"d":4,"e":5,"f":6,"g":7,"h":8,"i":9,"j":10,"k":11,"l":12,"m":13,"n":14,"o":15,"p":16,"q":17,"r":18,"s":19,"t":20,"u":21,"v":22,"w":23,"x":24,"y":25,"z":26,"aa":27}}'']
   \<and> json_text (JObj [(''v'', JInt 1), (''type'', JStr ''state''), (''id'', JStr ''lamp1''),
         (''class'', JStr ''switch''),
         (''payload'', JObj
       [(''a'', JInt 1), (''b'', JInt 2), (''c'', JInt 3), (''d'', JInt 4),
        (''e'', JInt 5), (''f'', JInt 6), (''g'', JInt 7), (''h'', JInt 8),
        (''i'', JInt 9), (''j'', JInt 10), (''k'', JInt 11), (''l'', JInt 12),
        (''m'', JInt 13), (''n'', JInt 14), (''o'', JInt 15), (''p'', JInt 16),
        (''q'', JInt 17), (''r'', JInt 18), (''s'', JInt 19), (''t'', JInt 20),
        (''u'', JInt 21), (''v'', JInt 22), (''w'', JInt 23), (''x'', JInt 24),
        (''y'', JInt 25), (''z'', JInt 26), (''aa'', JInt 27), (''ab'', JInt 28)])])
     = ''{"v":1,"type":"state","id":"lamp1","class":"switch","payload":{"a":1,"b":2,"c":3,"d":4,"e":5,"f":6,"g":7,"h":8,"i":9,"j":10,"k":11,"l":12,"m":13,"n":14,"o":15,"p":16,"q":17,"r":18,"s":19,"t":20,"u":21,"v":22,"w":23,"x":24,"y":25,"z":26,"aa":27,"ab":28}}''
   \<and> sendState (json_library 16) (ETBus\<lparr>dev_id := Some ''lamp1'', dev_class := Some ''switch''\<rparr>)
       [(''note'', JStr (replicate 500 CHR ''y''))]
     = [Packet ETBUS_MCAST ETBUS_PORT
         (''{"v":1,"type":"state","id":"lamp1","class":"switch","payload":{"note":"''
          @ replicate 441 CHR ''y'')]\<close>
proof -
  let ?L = \<open>json_library 16\<close>
  let ?s = \<open>ETBus\<lparr>dev_id := Some ''lamp1'', dev_class := Some ''switch''\<rparr>\<close>
  let ?head = \<open>[(''v'', JInt 1), (''type'', JStr ''state''), (''id'', JStr ''lamp1''),
                 (''class'', JStr ''switch''), (''payload'', JObj [])]\<close>
  let ?fits = \<open>[(''a'', JInt 1), (''b'', JInt 2), (''c'', JInt 3), (''d'', JInt 4),
        (''e'', JInt 5), (''f'', JInt 6), (''g'', JInt 7), (''h'', JInt 8),
        (''i'', JInt 9), (''j'', JInt 10), (''k'', JInt 11), (''l'', JInt 12),
        (''m'', JInt 13), (''n'', JInt 14), (''o'', JInt 15), (''p'', JInt 16),
        (''q'', JInt 17), (''r'', JInt 18), (''s'', JInt 19), (''t'', JInt 20),
        (''u'', JInt 21), (''v'', JInt 22), (''w'', JInt 23), (''x'', JInt 24),
        (''y'', JInt 25), (''z'', JInt 26), (''aa'', JInt 27)]\<close>
  have start: \<open>state_doc ?L ?s (?fits @ [(''ab'', JInt 28)]) =
      copy_payload 16 \<lparr>pool = 432, root = ?head\<rparr> (Some ''payload'') (?fits @ [(''ab'', JInt 28)])\<close>
    by (simp add: state_doc_def Let_def envelope_head of_cstr_def del: copy_payload.simps append.simps)
  have first: \<open>copy_payload 16 \<lparr>pool = 432, root = ?head\<rparr> (Some ''payload'') ?fits =
      \<lparr>pool = 432 - 16 * nested_slots (JObj ?fits),
       root = AList.update ''payload'' (JObj ([] @ ?fits)) ?head\<rparr>\<close>
    by (rule copy_payload_fits) simp_all
  have full: \<open>copy_payload 16 \<lparr>pool = 432, root = ?head\<rparr> (Some ''payload'') ?fits =
      \<lparr>pool = 0, root = [(''v'', JInt 1), (''type'', JStr ''state''), (''id'', JStr ''lamp1''),
                 (''class'', JStr ''switch''), (''payload'', JObj ?fits)]\<rparr>\<close>
    unfolding first by simp
  have last: \<open>copy_payload 16 \<lparr>pool = 0, root = [(''v'', JInt 1), (''type'', JStr ''state''),
                 (''id'', JStr ''lamp1''), (''class'', JStr ''switch''), (''payload'', JObj ?fits)]\<rparr>
               (Some ''payload'') [(''ab'', JInt 28)]
      = \<lparr>pool = 0, root = [(''v'', JInt 1), (''type'', JStr ''state''), (''id'', JStr ''lamp1''),
                 (''class'', JStr ''switch''), (''payload'', JObj ?fits)]\<rparr>\<close>
    by (simp add: obj_set_full)
  have doc28: \<open>root (state_doc ?L ?s (?fits @ [(''ab'', JInt 28)])) =
      [(''v'', JInt 1), (''type'', JStr ''state''), (''id'', JStr ''lamp1''),
       (''class'', JStr ''switch''), (''payload'', JObj ?fits)]\<close>
    unfolding start copy_payload_append full last by simp
  have sent27: \<open>json_text (JObj [(''v'', JInt 1), (''type'', JStr ''state''), (''id'', JStr ''lamp1''),
       (''class'', JStr ''switch''), (''payload'', JObj ?fits)])
     = ''{"v":1,"type":"state","id":"lamp1","class":"switch","payload":{"a":1,"b":2,"c":3,"d":4,"e":5,"f":6,"g":7,"h":8,"i":9,"j":10,"k":11,"l":12,"m":13,"n":14,"o":15,"p":16,"q":17,"r":18,"s":19,"t":20,"u":21,"v":22,"w":23,"x":24,"y":25,"z":26,"aa":27}}''\<close>
    by code_simp
  have a: \<open>sendState ?L ?s (?fits @ [(''ab'', JInt 28)])
     = [Packet ETBUS_MCAST ETBUS_PORT
         ''{"v":1,"type":"state","id":"lamp1","class":"switch","payload":{"a":1,"b":2,"c":3,"d":4,"e":5,"f":6,"g":7,"h":8,"i":9,"j":10,"k":11,"l":12,"m":13,"n":14,"o":15,"p":16,"q":17,"r":18,"s":19,"t":20,"u":21,"v":22,"w":23,"x":24,"y":25,"z":26,"aa":27}}'']\<close>
    unfolding sendState_def send_doc_def Let_def doc28 serializeJson_def sent27 by simp
  have b: \<open>json_text (JObj [(''v'', JInt 1), (''type'', JStr ''state''), (''id'', JStr ''lamp1''),
         (''class'', JStr ''switch''),
         (''payload'', JObj
       [(''a'', JInt 1), (''b'', JInt 2), (''c'', JInt 3), (''d'', JInt 4),
        (''e'', JInt 5), (''f'', JInt 6), (''g'', JInt 7), (''h'', JInt 8),
        (''i'', JInt 9), (''j'', JInt 10), (''k'', JInt 11), (''l'', JInt 12),
        (''m'', JInt 13), (''n'', JInt 14), (''o'', JInt 15), (''p'', JInt 16),
        (''q'', JInt 17), (''r'', JInt 18), (''s'', JInt 19), (''t'', JInt 20),
        (''u'', JInt 21), (''v'', JInt 22), (''w'', JInt 23), (''x'', JInt 24),
        (''y'', JInt 25), (''z'', JInt 26), (''aa'', JInt 27), (''ab'', JInt 28)])])
     = ''{"v":1,"type":"state","id":"lamp1","class":"switch","payload":{"a":1,"b":2,"c":3,"d":4,"e":5,"f":6,"g":7,"h":8,"i":9,"j":10,"k":11,"l":12,"m":13,"n":14,"o":15,"p":16,"q":17,"r":18,"s":19,"t":20,"u":21,"v":22,"w":23,"x":24,"y":25,"z":26,"aa":27,"ab":28}}''\<close>
    by code_simp
  have doc: \<open>root (state_doc ?L ?s [(''note'', JStr (replicate 500 CHR ''y''))]) =
      [(''v'', JInt 1), (''type'', JStr ''state''), (''id'', JStr ''lamp1''), (''class'', JStr ''switch''),
       (''payload'', JObj [(''note'', JStr (replicate 500 CHR ''y''))])]\<close>
    by (simp add: state_doc_root of_cstr_def)
  have esc: \<open>concat (map escape_char (replicate n CHR ''y'')) = replicate n CHR ''y''\<close> for n
    by (induction n) (simp_all add: escape_char_def)
  have head: \<open>json_text (JObj [(''v'', JInt 1), (''type'', JStr ''state''), (''id'', JStr ''lamp1''),
       (''class'', JStr ''switch''), (''payload'', JObj [(''note'', JStr (replicate 500 CHR ''y''))])])
     = ''{"v":1,"type":"state","id":"lamp1","class":"switch","payload":{"note":"''
       @ replicate 500 CHR ''y'' @ [CHR 0x22, CHR ''}'', CHR ''}'']\<close>
    by (simp add: quoted_def escape_char_def dec_int_def dec_nat.simps digit_def esc)
  have c: \<open>sendState ?L ?s [(''note'', JStr (replicate 500 CHR ''y''))]
     = [Packet ETBUS_MCAST ETBUS_PORT
         (''{"v":1,"type":"state","id":"lamp1","class":"switch","payload":{"note":"''
          @ replicate 441 CHR ''y'')]\<close>
    unfolding sendState_def send_doc_def Let_def doc serializeJson_def head by simp
  from a b c show ?thesis by simp
qed

text \<open>
  Claim C4, as the code has it. For the identity \<open>lamp1\<close>/\<open>switch\<close> and the payload
  \<open>{"on": true}\<close>, \<open>sendState\<close> sends exactly the bytes of the spec and nothing else. More
  generally it sends one datagram, the whole text of the envelope with \<open>v = 1\<close>, type
  \<open>state\<close>, the Endpoint's id and class and a payload equal to the caller's mapping, key
  by key, when the document of 512 bytes has room for the five members of the envelope
  and those of the payload, and the text has at most 512 bytes.
\<close>

theorem sendState_envelope_when_it_fits:
  \<open>(6 * slot_bytes L \<le> 512 \<and> dev_id s = Some ''lamp1'' \<and> dev_class s = Some ''switch''
      \<longrightarrow> sendState L s [(''on'', JBool True)] =
            [Packet ETBUS_MCAST ETBUS_PORT
               ''{"v":1,"type":"state","id":"lamp1","class":"switch","payload":{"on":true}}''])
   \<and> (distinct (map fst payload)
        \<and> slot_bytes L * (5 + nested_slots (JObj payload)) \<le> 512
        \<and> length (json_text
                    (JObj [(''v'', JInt 1), (''type'', JStr ''state''), (''id'', of_cstr (dev_id s)),
                           (''class'', of_cstr (dev_class s)), (''payload'', JObj payload)])) \<le> 512
      \<longrightarrow> sendState L s payload =
            [Packet ETBUS_MCAST ETBUS_PORT
               (json_text
                  (JObj [(''v'', JInt 1), (''type'', JStr ''state''), (''id'', of_cstr (dev_id s)),
                         (''class'', of_cstr (dev_class s)), (''payload'', JObj payload)]))])\<close>
proof (intro conjI impI)
  assume lamp: \<open>6 * slot_bytes L \<le> 512 \<and> dev_id s = Some ''lamp1'' \<and> dev_class s = Some ''switch''\<close>
  then have doc: \<open>root (state_doc L s [(''on'', JBool True)]) =
      [(''v'', JInt 1), (''type'', JStr ''state''), (''id'', of_cstr (Some ''lamp1'')),
       (''class'', of_cstr (Some ''switch'')), (''payload'', JObj [(''on'', JBool True)])]\<close>
    by (simp add: state_doc_root)
  have bytes: \<open>serializeJson
                 (JObj [(''v'', JInt 1), (''type'', JStr ''state''), (''id'', of_cstr (Some ''lamp1'')),
                        (''class'', of_cstr (Some ''switch'')), (''payload'', JObj [(''on'', JBool True)])])
                 512
               = ''{"v":1,"type":"state","id":"lamp1","class":"switch","payload":{"on":true}}''\<close>
    by code_simp
  show \<open>sendState L s [(''on'', JBool True)] =
            [Packet ETBUS_MCAST ETBUS_PORT
               ''{"v":1,"type":"state","id":"lamp1","class":"switch","payload":{"on":true}}'']\<close>
    unfolding sendState_def send_doc_def Let_def doc bytes ..
next
  let ?env = \<open>JObj [(''v'', JInt 1), (''type'', JStr ''state''), (''id'', of_cstr (dev_id s)),
                    (''class'', of_cstr (dev_class s)), (''payload'', JObj payload)]\<close>
  assume fits: \<open>distinct (map fst payload)
        \<and> slot_bytes L * (5 + nested_slots (JObj payload)) \<le> 512
        \<and> length (json_text ?env) \<le> 512\<close>
  then have doc: \<open>root (state_doc L s payload) =
      [(''v'', JInt 1), (''type'', JStr ''state''), (''id'', of_cstr (dev_id s)),
       (''class'', of_cstr (dev_class s)), (''payload'', JObj payload)]\<close>
    by (simp add: state_doc_root)
  from fits have whole: \<open>take 512 (json_text ?env) = json_text ?env\<close>
    by (intro take_all) blast
  show \<open>sendState L s payload = [Packet ETBUS_MCAST ETBUS_PORT (json_text ?env)]\<close>
    unfolding sendState_def send_doc_def Let_def doc serializeJson_def whole ..
qed

theorem sendState_envelope_when_it_fits_witness:
  \<open>sendState (json_library 16)
     (fst (begin_etbus (json_library 16) ETBus
             (Some ''lamp1'') (Some ''switch'') (Some ''Hall Lamp'') (Some ''1.0'') 0 196))
     [(''on'', JBool True)]
   = [Packet ETBUS_MCAST ETBUS_PORT
        ''{"v":1,"type":"state","id":"lamp1","class":"switch","payload":{"on":true}}'']
   \<and>
   sendState (json_library 16) (ETBus\<lparr>dev_id := Some ''lamp1'', dev_class := Some ''rgb''\<rparr>)
     [(''on'', JBool False), (''level'', JInt (- 3)), (''name'', JStr ''Hall'')]
   = [Packet ETBUS_MCAST ETBUS_PORT
        ''{"v":1,"type":"state","id":"lamp1","class":"rgb","payload":{"on":false,"level":-3,"name":"Hall"}}'']\<close>
proof -
  let ?L = \<open>json_library 16\<close>
  let ?s = \<open>fst (begin_etbus ?L ETBus (Some ''lamp1'') (Some ''switch'') (Some ''Hall Lamp'')
                  (Some ''1.0'') 0 196)\<close>
  let ?t = \<open>ETBus\<lparr>dev_id := Some ''lamp1'', dev_class := Some ''rgb''\<rparr>\<close>
  let ?payload = \<open>[(''on'', JBool False), (''level'', JInt (- 3)), (''name'', JStr ''Hall'')]\<close>
  have lamp: \<open>6 * slot_bytes ?L \<le> 512 \<and> dev_id ?s = Some ''lamp1'' \<and> dev_class ?s = Some ''switch''\<close>
    by (simp add: begin_etbus_def Let_def ETBus_def)
  have bytes: \<open>json_text
      (JObj [(''v'', JInt 1), (''type'', JStr ''state''), (''id'', of_cstr (Some ''lamp1'')),
             (''class'', of_cstr (Some ''rgb'')), (''payload'', JObj ?payload)])
    = ''{"v":1,"type":"state","id":"lamp1","class":"rgb","payload":{"on":false,"level":-3,"name":"Hall"}}''\<close>
    by code_simp
  have ident: \<open>dev_id ?t = Some ''lamp1''\<close> \<open>dev_class ?t = Some ''rgb''\<close>
    by simp_all
  have fits: \<open>distinct (map fst ?payload)
        \<and> slot_bytes ?L * (5 + nested_slots (JObj ?payload)) \<le> 512
        \<and> length (json_text
                    (JObj [(''v'', JInt 1), (''type'', JStr ''state''), (''id'', of_cstr (dev_id ?t)),
                           (''class'', of_cstr (dev_class ?t)), (''payload'', JObj ?payload)])) \<le> 512\<close>
    unfolding ident bytes by simp
  have one: \<open>sendState ?L ?s [(''on'', JBool True)] =
            [Packet ETBUS_MCAST ETBUS_PORT
               ''{"v":1,"type":"state","id":"lamp1","class":"switch","payload":{"on":true}}'']\<close>
    using sendState_envelope_when_it_fits [of ?L ?s] lamp by blast
  have two: \<open>sendState ?L ?t ?payload =
            [Packet ETBUS_MCAST ETBUS_PORT
               (json_text
                  (JObj [(''v'', JInt 1), (''type'', JStr ''state''), (''id'', of_cstr (dev_id ?t)),
                         (''class'', of_cstr (dev_class ?t)), (''payload'', JObj ?payload)]))]\<close>
    using sendState_envelope_when_it_fits [of ?L ?t ?payload] fits by blast
  from one two show ?thesis
    unfolding ident bytes by (intro conjI)
qed

text \<open>
  The typed emitters build the same members as \<open>sendState\<close> does from the matching
  payload, but in documents of 64 and 96 bytes. They are presets of \<open>sendState\<close> where
  these hold six and ten slots.
\<close>

lemma sendSwitchState_preset:
  assumes "6 * slot_bytes L \<le> 64"
  shows "sendSwitchState L s on = sendState L s [(''on'', JBool on)]"
proof -
  have "root (state_doc L s [(''on'', JBool on)]) = root (switch_doc L s on)"
    using assms by (simp add: state_doc_root switch_doc_root)
  then show ?thesis
    by (simp add: sendSwitchState_def sendState_def send_doc_def)
qed

lemma sendRgbState_preset:
  assumes "10 * slot_bytes L \<le> 96"
  shows "sendRgbState L s on r g b brightness =
         sendState L s [(''on'', JBool on), (''r'', JInt (uint r)), (''g'', JInt (uint g)),
                        (''b'', JInt (uint b)), (''brightness'', JInt (uint brightness))]"
proof -
  have "root (state_doc L s [(''on'', JBool on), (''r'', JInt (uint r)), (''g'', JInt (uint g)),
                        (''b'', JInt (uint b)), (''brightness'', JInt (uint brightness))])
        = root (rgb_doc L s on r g b brightness)"
    using assms by (simp add: state_doc_root rgb_doc_root)
  then show ?thesis
    by (simp add: sendRgbState_def sendState_def send_doc_def)
qed

text \<open>
  Claim C5 says that \<open>sendSwitchState(on)\<close> sends what \<open>sendState({"on": on})\<close> sends, and
  \<open>sendRgbState\<close> what \<open>sendState\<close> sends for its five fields. With slots of 16 bytes (the
  size on the 32-bit targets that the source is written for) the document of 64 bytes
  is full after \<open>v\<close>, \<open>type\<close>, \<open>id\<close> and \<open>class\<close>, and \<open>sendSwitchState\<close> sends no payload at
  all; the document of 96 bytes has room for \<open>payload\<close> and \<open>on\<close> only, and \<open>sendRgbState\<close>
  sends neither \<open>r\<close>, \<open>g\<close>, \<open>b\<close> nor \<open>brightness\<close>. \<open>sendState\<close>, in 512 bytes, sends both
  payloads whole.
\<close>

theorem typed_emitters_drop_payload:
  \<open>sendSwitchState (json_library 16)
     (ETBus\<lparr>dev_id := Some ''lamp1'', dev_class := Some ''switch''\<rparr>) True
   = [Packet ETBUS_MCAST ETBUS_PORT ''{"v":1,"type":"state","id":"lamp1","class":"switch"}'']
   \<and>
   sendState (json_library 16)
     (ETBus\<lparr>dev_id := Some ''lamp1'', dev_class := Some ''switch''\<rparr>) [(''on'', JBool True)]
   = [Packet ETBUS_MCAST ETBUS_PORT
        ''{"v":1,"type":"state","id":"lamp1","class":"switch","payload":{"on":true}}'']
   \<and>
   sendRgbState (json_library 16)
     (ETBus\<lparr>dev_id := Some ''lamp1'', dev_class := Some ''switch''\<rparr>) True 255 128 0 200
   = [Packet ETBUS_MCAST ETBUS_PORT
        ''{"v":1,"type":"state","id":"lamp1","class":"switch","payload":{"on":true}}'']
   \<and>
   sendState (json_library 16)
     (ETBus\<lparr>dev_id := Some ''lamp1'', dev_class := Some ''switch''\<rparr>)
     [(''on'', JBool True), (''r'', JInt 255), (''g'', JInt 128), (''b'', JInt 0),
      (''brightness'', JInt 200)]
   = [Packet ETBUS_MCAST ETBUS_PORT
        ''{"v":1,"type":"state","id":"lamp1","class":"switch","payload":{"on":true,"r":255,"g":128,"b":0,"brightness":200}}'']\<close>
proof -
  let ?L = \<open>json_library 16\<close>
  let ?s = \<open>ETBus\<lparr>dev_id := Some ''lamp1'', dev_class := Some ''switch''\<rparr>\<close>
  have sw: \<open>root (switch_doc ?L ?s True) =
      [(''v'', JInt 1), (''type'', JStr ''state''), (''id'', JStr ''lamp1''), (''class'', JStr ''switch'')]\<close>
    by (simp add: switch_doc_root_16 of_cstr_def)
  have rgb: \<open>root (rgb_doc ?L ?s True 255 128 0 200) =
      [(''v'', JInt 1), (''type'', JStr ''state''), (''id'', JStr ''lamp1''), (''class'', JStr ''switch''),
       (''payload'', JObj [(''on'', JBool True)])]\<close>
    by (simp add: rgb_doc_root_16 of_cstr_def)
  have st1: \<open>root (state_doc ?L ?s [(''on'', JBool True)]) =
      [(''v'', JInt 1), (''type'', JStr ''state''), (''id'', JStr ''lamp1''), (''class'', JStr ''switch''),
       (''payload'', JObj [(''on'', JBool True)])]\<close>
    by (simp add: state_doc_root of_cstr_def)
  have st5: \<open>root (state_doc ?L ?s [(''on'', JBool True), (''r'', JInt 255), (''g'', JInt 128),
                 (''b'', JInt 0), (''brightness'', JInt 200)]) =
      [(''v'', JInt 1), (''type'', JStr ''state''), (''id'', JStr ''lamp1''), (''class'', JStr ''switch''),
       (''payload'', JObj [(''on'', JBool True), (''r'', JInt 255), (''g'', JInt 128),
                 (''b'', JInt 0), (''brightness'', JInt 200)])]\<close>
    by (simp add: state_doc_root of_cstr_def)
  have t4: \<open>serializeJson (JObj [(''v'', JInt 1), (''type'', JStr ''state''), (''id'', JStr ''lamp1''),
                (''class'', JStr ''switch'')]) 512
            = ''{"v":1,"type":"state","id":"lamp1","class":"switch"}''\<close>
    by code_simp
  have t5: \<open>serializeJson (JObj [(''v'', JInt 1), (''type'', JStr ''state''), (''id'', JStr ''lamp1''),
                (''class'', JStr ''switch''), (''payload'', JObj [(''on'', JBool True)])]) 512
            = ''{"v":1,"type":"state","id":"lamp1","class":"switch","payload":{"on":true}}''\<close>
    by code_simp
  have t9: \<open>serializeJson (JObj [(''v'', JInt 1), (''type'', JStr ''state''), (''id'', JStr ''lamp1''),
                (''class'', JStr ''switch''),
                (''payload'', JObj [(''on'', JBool True), (''r'', JInt 255), (''g'', JInt 128),
                 (''b'', JInt 0), (''brightness'', JInt 200)])]) 512
            = ''{"v":1,"type":"state","id":"lamp1","class":"switch","payload":{"on":true,"r":255,"g":128,"b":0,"brightness":200}}''\<close>
    by code_simp
  have a: \<open>sendSwitchState ?L ?s True =
      [Packet ETBUS_MCAST ETBUS_PORT ''{"v":1,"type":"state","id":"lamp1","class":"switch"}'']\<close>
    unfolding sendSwitchState_def send_doc_def Let_def sw t4 ..
  have b: \<open>sendState ?L ?s [(''on'', JBool True)] = [Packet ETBUS_MCAST ETBUS_PORT
        ''{"v":1,"type":"state","id":"lamp1","class":"switch","payload":{"on":true}}'']\<close>
    unfolding sendState_def send_doc_def Let_def st1 t5 ..
  have c: \<open>sendRgbState ?L ?s True 255 128 0 200 = [Packet ETBUS_MCAST ETBUS_PORT
        ''{"v":1,"type":"state","id":"lamp1","class":"switch","payload":{"on":true}}'']\<close>
    unfolding sendRgbState_def send_doc_def Let_def rgb t5 ..
  have d: \<open>sendState ?L ?s [(''on'', JBool True), (''r'', JInt 255), (''g'', JInt 128),
                 (''b'', JInt 0), (''brightness'', JInt 200)] = [Packet ETBUS_MCAST ETBUS_PORT
        ''{"v":1,"type":"state","id":"lamp1","class":"switch","payload":{"on":true,"r":255,"g":128,"b":0,"brightness":200}}'']\<close>
    unfolding sendState_def send_doc_def Let_def st5 t9 ..
  from a b c d show ?thesis by (intro conjI)
qed

text \<open>
  Claim C8. Each of the five emitters sends one datagram, the text of the document it
  built, and that document carries \<open>v = 1\<close>, the type of the emitter (\<open>discover\<close>, \<open>pong\<close> or
  \<open>state\<close>), the Endpoint's id and the Endpoint's class. This needs room for four members
  in the smallest document (64 bytes), whatever happens to the payload.
\<close>

theorem emitters_carry_identity:
  assumes "slot_bytes L \<le> 16"
  shows "sendDiscover L s =
           [Packet ETBUS_MCAST ETBUS_PORT (serializeJson (JObj (root (discover_doc L s))) 512)]
       \<and> sendPong L s millis rssi =
           [Packet ETBUS_MCAST ETBUS_PORT (serializeJson (JObj (root (pong_doc L s millis rssi))) 512)]
       \<and> sendState L s payload =
           [Packet ETBUS_MCAST ETBUS_PORT (serializeJson (JObj (root (state_doc L s payload))) 512)]
       \<and> sendSwitchState L s on =
           [Packet ETBUS_MCAST ETBUS_PORT (serializeJson (JObj (root (switch_doc L s on))) 512)]
       \<and> sendRgbState L s on r g b brightness =
           [Packet ETBUS_MCAST ETBUS_PORT
              (serializeJson (JObj (root (rgb_doc L s on r g b brightness))) 512)]
       \<and> (\<forall>(d, t) \<in> {(discover_doc L s, ''discover''), (pong_doc L s millis rssi, ''pong''),
                      (state_doc L s payload, ''state''), (switch_doc L s on, ''state''),
                      (rgb_doc L s on r g b brightness, ''state'')}.
            map_of (root d) ''v'' = Some (JInt 1)
          \<and> map_of (root d) ''type'' = Some (JStr t)
          \<and> map_of (root d) ''id'' = Some (of_cstr (dev_id s))
          \<and> map_of (root d) ''class'' = Some (of_cstr (dev_class s)))"
proof -
  from assms have caps: "4 * slot_bytes L \<le> 64" "4 * slot_bytes L \<le> 96"
    "4 * slot_bytes L \<le> 256" "4 * slot_bytes L \<le> 512"
    by simp_all
  show ?thesis
    by (simp add: sendDiscover_def sendPong_def sendState_def sendSwitchState_def sendRgbState_def
        send_doc_def
        discover_doc_carries [OF caps(3)] pong_doc_carries [OF caps(3)]
        state_doc_carries [OF caps(4)] switch_doc_carries [OF caps(1)] rgb_doc_carries [OF caps(2)])
qed

theorem emitters_carry_identity_witness:
  \<open>map_of (root (switch_doc (json_library 16)
                    (ETBus\<lparr>dev_id := Some ''lamp1'', dev_class := Some ''switch''\<rparr>) True)) ''id''
     = Some (JStr ''lamp1'')
   \<and> map_of (root (rgb_doc (json_library 16)
                    (ETBus\<lparr>dev_id := Some ''lamp1'', dev_class := Some ''switch''\<rparr>) True 255 128 0 200))
        ''class''
     = Some (JStr ''switch'')
   \<and> map_of (root (state_doc (json_library 16)
                    (ETBus\<lparr>dev_id := Some ''lamp1'', dev_class := Some ''switch''\<rparr>)
                    [(''id'', JStr ''other''), (''v'', JInt 2)])) ''v''
     = Some (JInt 1)
   \<and> map_of (root (discover_doc (json_library 16)
                    (ETBus\<lparr>dev_id := Some ''lamp1'', dev_class := Some ''switch''\<rparr>))) ''type''
     = Some (JStr ''discover'')\<close>
proof -
  let ?L = \<open>json_library 16\<close>
  let ?s = \<open>ETBus\<lparr>dev_id := Some ''lamp1'', dev_class := Some ''switch''\<rparr>\<close>
  have cap: \<open>slot_bytes ?L \<le> 16\<close>
    by simp
  show ?thesis
    using emitters_carry_identity [OF cap, of ?s 0 0 "[(''id'', JStr ''other''), (''v'', JInt 2)]"
        True 255 128 0 200]
    by (simp add: of_cstr_def)
qed

text \<open>
  Claim C6 says that an envelope whose text exceeds 512 bytes is not sent and that the
  encoding reports an error. \<open>_send\<close> has no such outcome: it always sends one datagram,
  which holds the first 512 bytes of the text. An envelope of at most 512 bytes is
  sent whole; a longer one is sent cut, here in the middle of a string of the payload.
\<close>

theorem oversize_envelope_sent_truncated:
  \<open>length (json_text (JObj (root (state_doc (json_library 16)
       (ETBus\<lparr>dev_id := Some ''lamp1'', dev_class := Some ''switch''\<rparr>)
       [(''note'', JStr (replicate 600 CHR ''x''))])))) = 674
   \<and> sendState (json_library 16)
       (ETBus\<lparr>dev_id := Some ''lamp1'', dev_class := Some ''switch''\<rparr>)
       [(''note'', JStr (replicate 600 CHR ''x''))]
     = [Packet ETBUS_MCAST ETBUS_PORT
         (''{"v":1,"type":"state","id":"lamp1","class":"switch","payload":{"note":"''
          @ replicate 441 CHR ''x'')]\<close>
proof -
  let ?L = \<open>json_library 16\<close>
  let ?s = \<open>ETBus\<lparr>dev_id := Some ''lamp1'', dev_class := Some ''switch''\<rparr>\<close>
  have doc: \<open>root (state_doc ?L ?s [(''note'', JStr (replicate 600 CHR ''x''))]) =
      [(''v'', JInt 1), (''type'', JStr ''state''), (''id'', JStr ''lamp1''), (''class'', JStr ''switch''),
       (''payload'', JObj [(''note'', JStr (replicate 600 CHR ''x''))])]\<close>
    by (simp add: state_doc_root of_cstr_def)
  have head: \<open>json_text (JObj [(''v'', JInt 1), (''type'', JStr ''state''), (''id'', JStr ''lamp1''),
       (''class'', JStr ''switch''), (''payload'', JObj [(''note'', JStr (replicate 600 CHR ''x''))])])
     = ''{"v":1,"type":"state","id":"lamp1","class":"switch","payload":{"note":"''
       @ replicate 600 CHR ''x'' @ [CHR 0x22, CHR ''}'', CHR ''}'']\<close>
    by (simp add: quoted_def escape_char_def dec_int_def dec_nat.simps digit_def
        concat_escape_replicate)
  show ?thesis
    unfolding sendState_def send_doc_def Let_def doc serializeJson_def head
    by simp
qed

text \<open>
  Claim C6, as the code has it: \<open>_send\<close> never fails and never holds an envelope back. It
  sends one datagram with the first 512 bytes of the envelope's text, which is all of
  the text when that has at most 512 bytes.
\<close>

theorem send_doc_cuts_at_512:
  "send_doc doc = [Packet ETBUS_MCAST ETBUS_PORT (take 512 (json_text (JObj (root doc))))]
   \<and> (length (json_text (JObj (root doc))) \<le> 512 \<longrightarrow>
        send_doc doc = [Packet ETBUS_MCAST ETBUS_PORT (json_text (JObj (root doc)))])"
  by (simp add: send_doc_def serializeJson_def)

theorem send_doc_cuts_at_512_witness:
  \<open>send_doc (switch_doc (json_library 8)
               (ETBus\<lparr>dev_id := Some ''lamp1'', dev_class := Some ''switch''\<rparr>) False)
   = [Packet ETBUS_MCAST ETBUS_PORT
        ''{"v":1,"type":"state","id":"lamp1","class":"switch","payload":{"on":false}}'']\<close>
proof -
  let ?L = \<open>json_library 8\<close>
  let ?s = \<open>ETBus\<lparr>dev_id := Some ''lamp1'', dev_class := Some ''switch''\<rparr>\<close>
  have doc: \<open>root (switch_doc ?L ?s False) =
      [(''v'', JInt 1), (''type'', JStr ''state''), (''id'', JStr ''lamp1''), (''class'', JStr ''switch''),
       (''payload'', JObj [(''on'', JBool False)])]\<close>
    by (simp add: switch_doc_root of_cstr_def)
  have bytes: \<open>json_text (JObj [(''v'', JInt 1), (''type'', JStr ''state''), (''id'', JStr ''lamp1''),
                (''class'', JStr ''switch''), (''payload'', JObj [(''on'', JBool False)])])
            = ''{"v":1,"type":"state","id":"lamp1","class":"switch","payload":{"on":false}}''\<close>
    by code_simp
  have short: \<open>length (json_text (JObj (root (switch_doc ?L ?s False)))) \<le> 512\<close>
    unfolding doc bytes by simp
  show ?thesis
    using send_doc_cuts_at_512 [of "switch_doc ?L ?s False"] short
    unfolding doc bytes by blast
qed

section \<open>The round trip\<close>

text \<open>
  Claim C7 says that every valid envelope that fits the ceiling of 512 bytes is read
  back as it was written. \<open>_send\<close> writes up to 512 bytes, but \<open>loop\<close> reads at most 511
  bytes of a datagram (\<open>sizeof(buf) - 1\<close>): an envelope of exactly 512 bytes is sent whole
  and arrives without its last byte, which the reader reports as an error, so \<open>loop\<close>
  drops it. The second example is an envelope of 255 bytes with 33 members: with slots
  of 16 bytes the reader's document of 512 bytes has room for 32.
\<close>

theorem envelope_of_512_bytes_not_decoded:
  \<open>length (json_text (JObj (root (state_doc (json_library 16)
       (ETBus\<lparr>dev_id := Some ''lamp1'', dev_class := Some ''switch''\<rparr>)
       [(''note'', JStr (replicate 438 CHR ''x''))])))) = 512
   \<and> sendState (json_library 16) (ETBus\<lparr>dev_id := Some ''lamp1'', dev_class := Some ''switch''\<rparr>)
       [(''note'', JStr (replicate 438 CHR ''x''))]
     = [Packet ETBUS_MCAST ETBUS_PORT
         (''{"v":1,"type":"state","id":"lamp1","class":"switch","payload":{"note":"''
          @ replicate 438 CHR ''x'' @ [CHR 0x22, CHR ''}'', CHR ''}''])]
   \<and> deserializeJson (json_library 16) 512
       (c_string (take 511
         (''{"v":1,"type":"state","id":"lamp1","class":"switch","payload":{"note":"''
          @ replicate 438 CHR ''x'' @ [CHR 0x22, CHR ''}'', CHR ''}''])))
     = None
   \<and> send_doc \<lparr>pool = 0, root =
         [(''v'', JInt 1), (''type'', JStr ''command''), (''id'', JStr ''lamp1''),
          (''class'', JStr ''switch''),
          (''payload'', JObj
         [(''a'', JInt 1), (''b'', JInt 2), (''c'', JInt 3), (''d'', JInt 4),
          (''e'', JInt 5), (''f'', JInt 6), (''g'', JInt 7), (''h'', JInt 8),
          (''i'', JInt 9), (''j'', JInt 10), (''k'', JInt 11), (''l'', JInt 12),
          (''m'', JInt 13), (''n'', JInt 14), (''o'', JInt 15), (''p'', JInt 16),
          (''q'', JInt 17), (''r'', JInt 18), (''s'', JInt 19), (''t'', JInt 20),
          (''u'', JInt 21), (''v'', JInt 22), (''w'', JInt 23), (''x'', JInt 24),
          (''y'', JInt 25), (''z'', JInt 26), (''aa'', JInt 27), (''ab'', JInt 28)])]\<rparr>
     = [Packet ETBUS_MCAST ETBUS_PORT
         ''{"v":1,"type":"command","id":"lamp1","class":"switch","payload":{"a":1,"b":2,"c":3,"d":4,"e":5,"f":6,"g":7,"h":8,"i":9,"j":10,"k":11,"l":12,"m":13,"n":14,"o":15,"p":16,"q":17,"r":18,"s":19,"t":20,"u":21,"v":22,"w":23,"x":24,"y":25,"z":26,"aa":27,"ab":28}}'']
   \<and> deserializeJson (json_library 16) 512
       (c_string (take 511
         ''{"v":1,"type":"command","id":"lamp1","class":"switch","payload":{"a":1,"b":2,"c":3,"d":4,"e":5,"f":6,"g":7,"h":8,"i":9,"j":10,"k":11,"l":12,"m":13,"n":14,"o":15,"p":16,"q":17,"r":18,"s":19,"t":20,"u":21,"v":22,"w":23,"x":24,"y":25,"z":26,"aa":27,"ab":28}}''))
     = None\<close>
proof -
  let ?L = \<open>json_library 16\<close>
  let ?s = \<open>ETBus\<lparr>dev_id := Some ''lamp1'', dev_class := Some ''switch''\<rparr>\<close>
  have doc: \<open>root (state_doc ?L ?s [(''note'', JStr (replicate 438 CHR ''x''))]) =
      [(''v'', JInt 1), (''type'', JStr ''state''), (''id'', JStr ''lamp1''), (''class'', JStr ''switch''),
       (''payload'', JObj [(''note'', JStr (replicate 438 CHR ''x''))])]\<close>
    by (simp add: state_doc_root of_cstr_def json_library_def)
  have head: \<open>json_text (JObj [(''v'', JInt 1), (''type'', JStr ''state''), (''id'', JStr ''lamp1''),
       (''class'', JStr ''switch''), (''payload'', JObj [(''note'', JStr (replicate 438 CHR ''x''))])])
     = ''{"v":1,"type":"state","id":"lamp1","class":"switch","payload":{"note":"''
       @ replicate 438 CHR ''x'' @ [CHR 0x22, CHR ''}'', CHR ''}'']\<close>
    by (simp add: quoted_def escape_char_def dec_int_def dec_nat.simps digit_def
        concat_escape_replicate)
  have cut: \<open>deserializeJson ?L 512
       (c_string (take 511
         (''{"v":1,"type":"state","id":"lamp1","class":"switch","payload":{"note":"''
          @ replicate 438 CHR ''x'' @ [CHR 0x22, CHR ''}'', CHR ''}''])))
     = None\<close>
    by code_simp
  have a: \<open>length (json_text (JObj (root (state_doc ?L ?s
              [(''note'', JStr (replicate 438 CHR ''x''))])))) = 512\<close>
    unfolding doc head by simp
  have b: \<open>sendState ?L ?s [(''note'', JStr (replicate 438 CHR ''x''))]
     = [Packet ETBUS_MCAST ETBUS_PORT
         (''{"v":1,"type":"state","id":"lamp1","class":"switch","payload":{"note":"''
          @ replicate 438 CHR ''x'' @ [CHR 0x22, CHR ''}'', CHR ''}''])]\<close>
    unfolding sendState_def send_doc_def Let_def doc serializeJson_def head by simp
  have c: \<open>send_doc \<lparr>pool = 0, root =
         [(''v'', JInt 1), (''type'', JStr ''command''), (''id'', JStr ''lamp1''),
          (''class'', JStr ''switch''),
          (''payload'', JObj
         [(''a'', JInt 1), (''b'', JInt 2), (''c'', JInt 3), (''d'', JInt 4),
          (''e'', JInt 5), (''f'', JInt 6), (''g'', JInt 7), (''h'', JInt 8),
          (''i'', JInt 9), (''j'', JInt 10), (''k'', JInt 11), (''l'', JInt 12),
          (''m'', JInt 13), (''n'', JInt 14), (''o'', JInt 15), (''p'', JInt 16),
          (''q'', JInt 17), (''r'', JInt 18), (''s'', JInt 19), (''t'', JInt 20),
          (''u'', JInt 21), (''v'', JInt 22), (''w'', JInt 23), (''x'', JInt 24),
          (''y'', JInt 25), (''z'', JInt 26), (''aa'', JInt 27), (''ab'', JInt 28)])]\<rparr>
     = [Packet ETBUS_MCAST ETBUS_PORT
         ''{"v":1,"type":"command","id":"lamp1","class":"switch","payload":{"a":1,"b":2,"c":3,"d":4,"e":5,"f":6,"g":7,"h":8,"i":9,"j":10,"k":11,"l":12,"m":13,"n":14,"o":15,"p":16,"q":17,"r":18,"s":19,"t":20,"u":21,"v":22,"w":23,"x":24,"y":25,"z":26,"aa":27,"ab":28}}'']\<close>
    by code_simp
  have d: \<open>deserializeJson ?L 512
       (c_string (take 511
         ''{"v":1,"type":"command","id":"lamp1","class":"switch","payload":{"a":1,"b":2,"c":3,"d":4,"e":5,"f":6,"g":7,"h":8,"i":9,"j":10,"k":11,"l":12,"m":13,"n":14,"o":15,"p":16,"q":17,"r":18,"s":19,"t":20,"u":21,"v":22,"w":23,"x":24,"y":25,"z":26,"aa":27,"ab":28}}''))
     = None\<close>
    by code_simp
  from a b cut c d show ?thesis by (intro conjI)
qed

text \<open>
  Claim C7, as the code has it: the bytes that \<open>_send\<close> emits for a document are read
  back by \<open>loop\<close>'s call of the reader as the same document, every member with its value
  and in the same order, when the text has at most 511 bytes, holds no 0 byte (the
  strings of the class are C strings) and the members fit the reader's document of 512
  bytes.
\<close>

theorem envelope_roundtrip:
  assumes "send_doc d = [Packet ETBUS_MCAST ETBUS_PORT bytes]"
    and "CHR 0x00 \<notin> set (json_text (JObj (root d)))"
    and "length (json_text (JObj (root d))) \<le> 511"
    and "slot * nested_slots (JObj (root d)) \<le> 512"
  shows "deserializeJson (json_library slot) 512 (c_string (take 511 bytes)) = Some (JObj (root d))"
proof -
  define doc where "doc = JObj (root d)"
  define wire where "wire = json_text doc"
  from assms(1) have "bytes = take 512 wire"
    by (simp add: send_doc_def serializeJson_def wire_def doc_def)
  then have buf: "c_string (take 511 bytes) = wire"
    using assms(2,3) by (simp add: c_string_id wire_def doc_def)
  have "Suc (2 * nested_slots doc) \<le> length wire"
    unfolding wire_def by (rule json_text_fuel)
  then have "parse_value (length wire) (json_text doc @ []) = Some (doc, [])"
    by (rule parse_value_text) simp
  then have "parse_value (length wire) wire = Some (doc, [])"
    by (simp add: wire_def)
  then have "decode_json slot 512 wire = Some doc"
    using assms(4) by (simp add: decode_json_def doc_def)
  then show ?thesis
    unfolding buf by (simp add: json_library_def doc_def)
qed

theorem envelope_roundtrip_witness:
  \<open>deserializeJson (json_library 16) 512
     (c_string (take 511
        ''{"v":1,"type":"state","id":"lamp1","class":"switch","payload":{"on":true,"level":-3,"name":"Hall"}}''))
   = Some (JObj [(''v'', JInt 1), (''type'', JStr ''state''), (''id'', JStr ''lamp1''),
                 (''class'', JStr ''switch''),
                 (''payload'', JObj [(''on'', JBool True), (''level'', JInt (- 3)),
                                     (''name'', JStr ''Hall'')])])\<close>
proof -
  let ?s = \<open>ETBus\<lparr>dev_id := Some ''lamp1'', dev_class := Some ''switch''\<rparr>\<close>
  let ?payload = \<open>[(''on'', JBool True), (''level'', JInt (- 3)),
                   (''name'', JStr ''Hall'')]\<close>
  let ?d = \<open>state_doc (json_library 16) ?s ?payload\<close>
  let ?bytes = \<open>''{"v":1,"type":"state","id":"lamp1","class":"switch","payload":{"on":true,"level":-3,"name":"Hall"}}''\<close>
  have doc: \<open>root ?d =
      [(''v'', JInt 1), (''type'', JStr ''state''), (''id'', JStr ''lamp1''), (''class'', JStr ''switch''),
       (''payload'', JObj ?payload)]\<close>
    by (simp add: state_doc_root of_cstr_def json_library_def)
  have bytes: \<open>json_text (JObj [(''v'', JInt 1), (''type'', JStr ''state''), (''id'', JStr ''lamp1''),
       (''class'', JStr ''switch''), (''payload'', JObj ?payload)]) = ?bytes\<close>
    by code_simp
  have sent: \<open>send_doc ?d = [Packet ETBUS_MCAST ETBUS_PORT ?bytes]\<close>
    unfolding send_doc_def Let_def doc serializeJson_def bytes by simp
  have nul: \<open>CHR 0x00 \<notin> set (json_text (JObj (root ?d)))\<close>
    unfolding doc bytes by simp
  have len: \<open>length (json_text (JObj (root ?d))) \<le> 511\<close>
    unfolding doc bytes by simp
  have cap: \<open>16 * nested_slots (JObj (root ?d)) \<le> 512\<close>
    unfolding doc by simp
  show ?thesis
    using envelope_roundtrip [OF sent nul len cap] unfolding doc .
qed

end
